theory Spec2Isabelle
  imports Main
begin

section \<open>Strings and arrays as the source uses them\<close>

text \<open>
  \<^verbatim>\<open>String.prototype.split\<close> with a one-character separator: the result is never
  empty, and \<open>n\<close> separators give \<open>n + 1\<close> components (\<^verbatim>\<open>''.split('/')\<close> is
  \<^verbatim>\<open>['']\<close>, \<^verbatim>\<open>'/a'.split('/')\<close> is \<^verbatim>\<open>['', 'a']\<close>).
\<close>

fun split_on :: "char \<Rightarrow> string \<Rightarrow> string list" where
  "split_on c [] = [[]]"
| "split_on c (x # xs) =
     (if x = c then [] # split_on c xs
      else (case split_on c xs of
              [] \<Rightarrow> [[x]]
            | w # ws \<Rightarrow> (x # w) # ws))"

text \<open>\<^verbatim>\<open>Array.prototype.join\<close>: the components with the separator between them.\<close>

fun join_with :: "string \<Rightarrow> string list \<Rightarrow> string" where
  "join_with sep [] = []"
| "join_with sep [x] = x"
| "join_with sep (x # y # ys) = x @ sep @ join_with sep (y # ys)"

text \<open>
  \<^verbatim>\<open>Array.prototype.indexOf\<close>: the position of the first element equal to \<open>x\<close>,
  or \<open>-1\<close> when there is none.
\<close>

fun indexOf_from :: "int \<Rightarrow> 'a list \<Rightarrow> 'a \<Rightarrow> int" where
  "indexOf_from k [] x = - 1"
| "indexOf_from k (y # ys) x = (if y = x then k else indexOf_from (k + 1) ys x)"

definition indexOf :: "'a list \<Rightarrow> 'a \<Rightarrow> int" where
  "indexOf xs x = indexOf_from 0 xs x"

text \<open>Reading \<^verbatim>\<open>xs[i]\<close>: \<^verbatim>\<open>undefined\<close> (here \<open>None\<close>) out of range.\<close>

definition nth_opt :: "'a list \<Rightarrow> nat \<Rightarrow> 'a option" where
  "nth_opt xs i = (if i < length xs then Some (xs ! i) else None)"

text \<open>
  \<^verbatim>\<open>xs.slice(a, b)\<close> and \<^verbatim>\<open>xs.slice(a)\<close> for indices that are not negative.
\<close>

definition slice :: "'a list \<Rightarrow> nat \<Rightarrow> nat \<Rightarrow> 'a list" where
  "slice xs a b = drop a (take b xs)"

definition slice_from :: "'a list \<Rightarrow> nat \<Rightarrow> 'a list" where
  "slice_from xs a = drop a xs"

section \<open>Translating one path: \<^verbatim>\<open>LocalizeParser.translateRoute\<close>\<close>

text \<open>
  The string-lookup provider (\<^verbatim>\<open>TranslateService.get\<close>) is a function from keys to
  texts; it answers a key it has no text for with the key itself. The observable built
  for one component of the path is either a lookup or a constant.
\<close>

datatype observable = TranslateGet string | ObservableOf string

definition routeObservables :: "string \<Rightarrow> string list \<Rightarrow> observable list" where
  "routeObservables pfx pathSegments =
     map (\<lambda>part. if length part \<noteq> 0 then TranslateGet (pfx @ part) else ObservableOf part)
       pathSegments"

fun emitted :: "(string \<Rightarrow> string) \<Rightarrow> observable \<Rightarrow> string" where
  "emitted lk (TranslateGet key) = lk key"
| "emitted lk (ObservableOf v) = v"

text \<open>
  The loop of the subscriber: a component whose translation is the lookup key itself
  is put back as it was in the path. \<open>pathSegments\<close> and \<open>translatedSegments\<close> have the
  same length where the source runs it (one result for each component).
\<close>

function restoreMisses :: "string \<Rightarrow> string list \<Rightarrow> nat \<Rightarrow> string list \<Rightarrow> string list" where
  "restoreMisses pfx pathSegments i translatedSegments =
     (if i < length translatedSegments then
        restoreMisses pfx pathSegments (Suc i)
          (if translatedSegments ! i = pfx @ pathSegments ! i
           then translatedSegments[i := pathSegments ! i]
           else translatedSegments)
      else translatedSegments)"
  by pat_completeness auto
termination
  by (relation "measure (\<lambda>(pfx, pathSegments, i, translatedSegments). length translatedSegments - i)") auto

declare restoreMisses.simps [simp del]

text \<open>What the subscriber hands to \<^verbatim>\<open>observer.next\<close> for the results of the lookups.\<close>

definition translateRoute_next :: "string \<Rightarrow> string list \<Rightarrow> string list \<Rightarrow> string" where
  "translateRoute_next pfx pathSegments translatedSegments =
     join_with ''/'' (restoreMisses pfx pathSegments 0 translatedSegments)"

text \<open>
  \<^verbatim>\<open>translateRoute\<close>: the string the returned observable emits once every lookup has
  answered.
\<close>

definition translateRoute :: "string \<Rightarrow> (string \<Rightarrow> string) \<Rightarrow> string \<Rightarrow> string" where
  "translateRoute pfx lk path =
     (let pathSegments = split_on CHR ''/'' path in
      translateRoute_next pfx pathSegments
        (map (emitted lk) (routeObservables pfx pathSegments)))"

text \<open>
  Modelled from the spec: \<^verbatim>\<open>Observable.forkJoin\<close> of rxjs, which the repository
  imports and does not contain. The spec has it wait for all lookups to settle and hand
  over their results in the order of the components, whatever the order of completion.
  Here \<open>order\<close> lists the indices of the sources in the order in which they complete;
  each completion stores the result in the slot of its index, and the results are handed
  over when every slot is filled (\<open>None\<close>: not yet).
\<close>

definition forkJoin :: "nat list \<Rightarrow> 'a list \<Rightarrow> 'a list option" where
  "forkJoin order results =
     (let slots = fold (\<lambda>i s. if i < length results then s[i := Some (results ! i)] else s)
                    order (replicate (length results) None)
      in if list_all (\<lambda>v. v \<noteq> None) slots then Some (map the slots) else None)"

text \<open>\<^verbatim>\<open>translateRoute\<close> under a given order of completion of its lookups.\<close>

definition translateRoute_scheduled ::
  "nat list \<Rightarrow> string \<Rightarrow> (string \<Rightarrow> string) \<Rightarrow> string \<Rightarrow> string option" where
  "translateRoute_scheduled order pfx lk path =
     (let pathSegments = split_on CHR ''/'' path in
      case forkJoin order (map (emitted lk) (routeObservables pfx pathSegments)) of
        None \<Rightarrow> None
      | Some translatedSegments \<Rightarrow> Some (translateRoute_next pfx pathSegments translatedSegments))"

text \<open>The array \<^verbatim>\<open>translatedSegments\<close> when the loop has run, before it is joined.\<close>

definition translatedSegments :: "string \<Rightarrow> (string \<Rightarrow> string) \<Rightarrow> string \<Rightarrow> string list" where
  "translatedSegments pfx lk path =
     (let pathSegments = split_on CHR ''/'' path in
      restoreMisses pfx pathSegments 0 (map (emitted lk) (routeObservables pfx pathSegments)))"

text \<open>The result of one component as the specification words it.\<close>

definition translateSegment :: "string \<Rightarrow> (string \<Rightarrow> string) \<Rightarrow> string \<Rightarrow> string" where
  "translateSegment pfx lk s =
     (if s = [] then s
      else if lk (pfx @ s) = pfx @ s then s
      else lk (pfx @ s))"

section \<open>Translating the route tree\<close>

text \<open>
  A route of the router configuration with the fields the parser reads and writes. A
  field that is absent (\<^verbatim>\<open>undefined\<close>) is \<open>None\<close>.
\<close>

datatype route = Route (path: "string option") (redirectTo: "string option")
  (pathMatch: "string option") (children: "route list option")

text \<open>The two properties the parser translates, and the error the source can throw.\<close>

datatype property = Path | RedirectTo

datatype error = TypeError

fun getProperty :: "route \<Rightarrow> property \<Rightarrow> string option" where
  "getProperty route Path = path route"
| "getProperty route RedirectTo = redirectTo route"

fun setProperty :: "route \<Rightarrow> property \<Rightarrow> string \<Rightarrow> route" where
  "setProperty (Route p r m c) Path v = Route (Some v) r m c"
| "setProperty (Route p r m c) RedirectTo v = Route p (Some v) m c"

fun setChildren :: "route \<Rightarrow> route list \<Rightarrow> route" where
  "setChildren (Route p r m c) cs = Route p r m (Some cs)"

text \<open>Whether a value that is a string or nothing counts as true in a condition.\<close>

fun truthy :: "string option \<Rightarrow> bool" where
  "truthy None = False"
| "truthy (Some s) = (s \<noteq> [])"

text \<open>
  One translation started by \<^verbatim>\<open>_getTranslatePromise\<close>, named by the position of its
  destination node (the indices from the root array down) and the property.
\<close>

type_synonym job = "nat list \<times> property"

text \<open>
  \<^verbatim>\<open>_getTranslatePromise(target, destination, property)\<close>: the destination with the
  translation of \<^verbatim>\<open>target[property]\<close> written into the property, which is what its
  subscriber does when the lookups have answered. Reading the property of a target that
  is \<^verbatim>\<open>undefined\<close>, and splitting a path that is \<^verbatim>\<open>undefined\<close>, throw.
\<close>

definition getTranslatePromise ::
  "string \<Rightarrow> (string \<Rightarrow> string) \<Rightarrow> route option \<Rightarrow> route \<Rightarrow> property \<Rightarrow> error + route" where
  "getTranslatePromise pfx lk target destination property =
     (case target of
        None \<Rightarrow> Inl TypeError
      | Some t \<Rightarrow>
          (case getProperty t property of
             None \<Rightarrow> Inl TypeError
           | Some p \<Rightarrow> Inr (setProperty destination property (translateRoute pfx lk p))))"

text \<open>
  The first two statements of the body of the \<^verbatim>\<open>forEach\<close> in
  \<^verbatim>\<open>_translateRouteTree\<close>: \<^verbatim>\<open>if (route.path) promises.push(...)\<close> and the same for
  \<^verbatim>\<open>redirectTo\<close>. The accumulator is the route, the translations pushed so far and
  the error thrown, after which nothing more is done.
\<close>

definition translateProperty ::
  "string \<Rightarrow> (string \<Rightarrow> string) \<Rightarrow> nat list \<Rightarrow> route option \<Rightarrow> property \<Rightarrow>
   route \<times> job list \<times> error option \<Rightarrow> route \<times> job list \<times> error option" where
  "translateProperty pfx lk addr original property acc =
     (case acc of
        (route, jobs, Some e) \<Rightarrow> (route, jobs, Some e)
      | (route, jobs, None) \<Rightarrow>
          (if truthy (getProperty route property) then
             (case getTranslatePromise pfx lk original route property of
                Inl e \<Rightarrow> (route, jobs, Some e)
              | Inr route' \<Rightarrow> (route', jobs @ [(addr, property)], None))
           else (route, jobs, None)))"

definition translateProperties ::
  "string \<Rightarrow> (string \<Rightarrow> string) \<Rightarrow> nat list \<Rightarrow> route option \<Rightarrow> route \<Rightarrow>
   route \<times> job list \<times> error option" where
  "translateProperties pfx lk addr original route =
     translateProperty pfx lk addr original RedirectTo
       (translateProperty pfx lk addr original Path (route, [], None))"

text \<open>
  The outcome of \<^verbatim>\<open>_translateRouteTree\<close>: \<open>live\<close> is the array of live nodes once
  every translation started has written its result; \<open>started\<close> lists every translation
  started, in this call and in the calls for the children; \<open>promises\<close> lists the ones
  pushed to the array \<^verbatim>\<open>promises\<close> of this call, which are the ones the returned
  \<^verbatim>\<open>Promise.all(promises)\<close> waits for; \<open>thrown\<close> is the error thrown, if any (then no
  promise is returned).
\<close>

datatype tree_result = TreeResult (live: "route list") (started: "job list")
  (promises: "job list") (thrown: "error option")

fun prepend :: "route \<Rightarrow> job list \<Rightarrow> job list \<Rightarrow> tree_result \<Rightarrow> tree_result" where
  "prepend route st pr (TreeResult rs st' pr' e) =
     TreeResult (route # rs) (st @ st') (if e = None then pr @ pr' else []) e"

text \<open>
  \<^verbatim>\<open>_translateRouteTree(routes, originals)\<close>, for the nodes from \<open>index\<close> on; \<open>pre\<close> is
  the position of the array \<open>routes\<close>. \<^verbatim>\<open>originals[index]\<close> throws when \<open>originals\<close> is
  \<^verbatim>\<open>undefined\<close>, and \<^verbatim>\<open>original.children\<close> throws when the original node is. The
  call for the children returns a promise that the source does not use: its \<open>promises\<close>
  are not added to those of this call.
\<close>

fun translateRouteTree ::
  "string \<Rightarrow> (string \<Rightarrow> string) \<Rightarrow> nat list \<Rightarrow> nat \<Rightarrow> route list \<Rightarrow> route list option \<Rightarrow>
   tree_result" where
  "translateRouteTree pfx lk pre index [] originals = TreeResult [] [] [] None"
| "translateRouteTree pfx lk pre index (Route p r m c # rest) originals =
     (case originals of
        None \<Rightarrow> TreeResult (Route p r m c # rest) [] [] (Some TypeError)
      | Some os \<Rightarrow>
          (case translateProperties pfx lk (pre @ [index]) (nth_opt os index) (Route p r m c) of
             (route1, jobs, Some e) \<Rightarrow> TreeResult (route1 # rest) jobs [] (Some e)
           | (route1, jobs, None) \<Rightarrow>
               (case c of
                  None \<Rightarrow>
                    prepend route1 jobs jobs
                      (translateRouteTree pfx lk pre (Suc index) rest originals)
                | Some cs \<Rightarrow>
                    (case nth_opt os index of
                       None \<Rightarrow> TreeResult (route1 # rest) jobs [] (Some TypeError)
                     | Some original \<Rightarrow>
                         (case translateRouteTree pfx lk (pre @ [index]) 0 cs (children original) of
                            TreeResult cs' st pr (Some e) \<Rightarrow>
                              TreeResult (setChildren route1 cs' # rest) (jobs @ st) [] (Some e)
                          | TreeResult cs' st pr None \<Rightarrow>
                              prepend (setChildren route1 cs') (jobs @ st) jobs
                                (translateRouteTree pfx lk pre (Suc index) rest originals))))))"

section \<open>The parser and its surroundings\<close>

text \<open>
  The state the parser reads and writes: its own fields, the language in use and the
  default language of the translate service, the language the browser reports, the item
  \<^verbatim>\<open>LOCALIZE_LOCAL_STORAGE\<close> of \<^verbatim>\<open>window.localStorage\<close> (\<open>hasStorage\<close>: whether
  the storage exists), \<^verbatim>\<open>location.pathname\<close>, and the effects issued so far, oldest
  first. A value that may be \<^verbatim>\<open>undefined\<close> or \<^verbatim>\<open>null\<close> is an option.
\<close>

text \<open>
  The effects: \<^verbatim>\<open>translate.use\<close>, the assignment to \<^verbatim>\<open>currentLang\<close>,
  \<^verbatim>\<open>localStorage.setItem\<close>, \<^verbatim>\<open>translate.setDefaultLang\<close>, and the two effects of the
  callbacks of the service, \<^verbatim>\<open>router.navigateByUrl\<close> and \<^verbatim>\<open>routerEvents.next\<close>.
\<close>

datatype effect =
    TranslateUse "string option"
  | SetCurrentLang "string option"
  | StorageSetItem string
  | SetDefaultLang "string option"
  | NavigateByUrl string
  | RouterEventsNext string

record state =
  locales :: "string list"
  prefix :: string
  currentLang :: "string option"
  routes :: "route list option"
  originalRouteNames :: "route list option"
  translate_currentLang :: "string option"
  translate_defaultLang :: "string option"
  browserLang :: "string option"
  hasStorage :: bool
  storedLang :: "string option"
  pathname :: string
  effects :: "effect list"

text \<open>
  The texts of the lookup provider: for the language in use and the default language of
  the translate service, a function from keys to texts.
\<close>

type_synonym provider = "string option \<Rightarrow> string option \<Rightarrow> string \<Rightarrow> string"

text \<open>\<^verbatim>\<open>a || b\<close> on values that are a string or nothing.\<close>

definition or_else :: "string option \<Rightarrow> string option \<Rightarrow> string option" where
  "or_else a b = (if truthy a then a else b)"

definition returnIfInLocales :: "state \<Rightarrow> string option \<Rightarrow> string option" where
  "returnIfInLocales s v =
     (case v of
        None \<Rightarrow> None
      | Some l \<Rightarrow> if l \<noteq> [] \<and> indexOf (locales s) l \<noteq> - 1 then Some l else None)"

definition getBrowserLang :: "state \<Rightarrow> string option" where
  "getBrowserLang s = returnIfInLocales s (browserLang s)"

definition get_cachedLang :: "state \<Rightarrow> string option" where
  "get_cachedLang s = (if \<not> hasStorage s then None else returnIfInLocales s (storedLang s))"

text \<open>The setter stores the string of its value: \<^verbatim>\<open>undefined\<close> is stored as its name.\<close>

definition set_cachedLang :: "string option \<Rightarrow> state \<Rightarrow> state" where
  "set_cachedLang v s =
     (if \<not> hasStorage s then s
      else (let item = (case v of None \<Rightarrow> ''undefined'' | Some l \<Rightarrow> l)
            in s\<lparr>storedLang := Some item, effects := effects s @ [StorageSetItem item]\<rparr>))"

definition getLocationLang :: "state \<Rightarrow> string option \<Rightarrow> string option" where
  "getLocationLang s url =
     (let pathSlices = split_on CHR ''/'' (if truthy url then the url else pathname s) in
      if length pathSlices > 1 \<and> indexOf (locales s) (pathSlices ! 1) \<noteq> - 1
      then Some (pathSlices ! 1)
      else if length pathSlices \<noteq> 0 \<and> indexOf (locales s) (pathSlices ! 0) \<noteq> - 1
      then Some (pathSlices ! 0)
      else None)"

text \<open>
  \<^verbatim>\<open>translateRoutes\<close>. The result is the new state and either the error thrown or the
  translations started and the ones the returned promise waits for. The routes of the
  new state are the routes once every translation started has written its result.
\<close>

definition translateRoutes ::
  "provider \<Rightarrow> string option \<Rightarrow> state \<Rightarrow> state \<times> (error + job list \<times> job list)" where
  "translateRoutes tr language s =
     (let s1 = s\<lparr>translate_currentLang := language,
                 effects := effects s @ [TranslateUse language]\<rparr>;
          s2 = s1\<lparr>currentLang := language,
                  effects := effects s1 @ [SetCurrentLang language]\<rparr>;
          s3 = set_cachedLang language s2
      in case routes s3 of
           None \<Rightarrow> (s3, Inl TypeError)
         | Some rs \<Rightarrow>
             (case nth_opt rs 1 of
                None \<Rightarrow> (s3, Inl TypeError)
              | Some (Route p r m c) \<Rightarrow>
                  (case c of
                     None \<Rightarrow> (s3\<lparr>routes := Some (rs[1 := Route language r m c])\<rparr>, Inl TypeError)
                   | Some cs \<Rightarrow>
                       (let res = translateRouteTree (prefix s3)
                                    (tr (translate_currentLang s3) (translate_defaultLang s3))
                                    [1] 0 cs (originalRouteNames s3);
                            s4 = s3\<lparr>routes := Some (rs[1 := Route language r m (Some (live res))])\<rparr>
                        in case thrown res of
                             Some e \<Rightarrow> (s4, Inl e)
                           | None \<Rightarrow> (s4, Inr (started res, promises res))))))"

text \<open>\<^verbatim>\<open>JSON.parse(JSON.stringify(routes))\<close>: every node is built anew.\<close>

fun copyRoute :: "route \<Rightarrow> route" where
  "copyRoute (Route p r m c) = Route p r m (map_option (map copyRoute) c)"

definition deepCopy :: "route list \<Rightarrow> route list" where
  "deepCopy rs = map copyRoute rs"

text \<open>
  \<^verbatim>\<open>init\<close>. \<open>newRoutes\<close> is the array handed in; on the first call it becomes the array
  of the parser and is rewritten in place.
\<close>

definition init ::
  "provider \<Rightarrow> route list \<Rightarrow> state \<Rightarrow> state \<times> (error + job list \<times> job list)" where
  "init tr newRoutes s =
     (case routes s of
        Some rs \<Rightarrow>
          (let selectedLanguage = currentLang s in
           case originalRouteNames s of
             None \<Rightarrow> (s, Inl TypeError)
           | Some orig \<Rightarrow>
               (let s1 = s\<lparr>originalRouteNames := Some (deepCopy newRoutes @ orig)\<rparr> in
                case nth_opt rs 1 of
                  None \<Rightarrow> (s1, Inl TypeError)
                | Some (Route p r m c) \<Rightarrow>
                    (case c of
                       None \<Rightarrow> (s1, Inl TypeError)
                     | Some cs \<Rightarrow>
                         translateRoutes tr selectedLanguage
                           (s1\<lparr>routes := Some (rs[1 := Route p r m (Some (newRoutes @ cs))])\<rparr>))))
      | None \<Rightarrow>
          (let s1 = s\<lparr>routes := Some newRoutes,
                      originalRouteNames := Some (deepCopy newRoutes)\<rparr> in
           if length (locales s1) = 0 then (s1, Inr ([], []))
           else
             (let locationLang = getLocationLang s1 None;
                  defaultLanguage =
                    or_else (or_else (get_cachedLang s1) (getBrowserLang s1))
                      (Some (locales s1 ! 0));
                  selectedLanguage = or_else locationLang defaultLanguage;
                  s2 = s1\<lparr>translate_defaultLang := defaultLanguage,
                          effects := effects s1 @ [SetDefaultLang defaultLanguage]\<rparr>;
                  children = newRoutes;
                  s3 = s2\<lparr>routes :=
                          Some [Route (Some []) (translate_defaultLang s2) (Some ''full'') None,
                                Route None None None (Some children)]\<rparr>
              in translateRoutes tr selectedLanguage s3)))"

section \<open>The service: \<^verbatim>\<open>LocalizeRouterService\<close>\<close>

text \<open>
  A route snapshot of the router. Its \<^verbatim>\<open>routeConfig\<close> is a reference to a node of
  the routes of the parser, here the position of the node (the indices from the root
  array down); \<open>None\<close> is \<^verbatim>\<open>null\<close>. \<open>url\<close> holds the paths of its url segments.
\<close>

datatype snapshot = Snapshot (routeConfig: "nat list option") (url: "string list")
  (firstChild: "snapshot option")

text \<open>
  \<^verbatim>\<open>changeLanguage\<close> of \<^verbatim>\<open>src/localize-router.service.ts\<close>. \<open>rootSnapshot\<close> is the
  root of the router's current snapshot, read before the translation. The result is the
  new state and the error thrown, if any. \<^verbatim>\<open>translateRoutes\<close> of the parser returns
  the promise of \<^verbatim>\<open>Promise.all\<close>, and a promise has no \<^verbatim>\<open>subscribe\<close>: when
  \<^verbatim>\<open>translateRoutes\<close> has returned, the call of \<^verbatim>\<open>subscribe\<close> on its result throws, and
  the function handed to it, which would build the url from the snapshot and navigate,
  is not run.
\<close>

definition changeLanguage ::
  "provider \<Rightarrow> snapshot \<Rightarrow> string \<Rightarrow> state \<Rightarrow> state \<times> error option" where
  "changeLanguage tr rootSnapshot lang s =
     (if Some lang \<noteq> currentLang s then
        (case translateRoutes tr (Some lang) s of
           (s1, Inl e) \<Rightarrow> (s1, Some e)
         | (s1, Inr jobs) \<Rightarrow> (s1, Some TypeError))
      else (s, None))"

text \<open>
  The handler \<^verbatim>\<open>_routeChanged\<close> gives to the events of the router. Here too
  \<^verbatim>\<open>subscribe\<close> is called on the promise \<^verbatim>\<open>translateRoutes\<close> returns and throws, and
  the function that would call \<^verbatim>\<open>routerEvents.next\<close> is not run.
\<close>

record router_event =
  isNavigationStart :: bool
  event_url :: "string option"

definition routeChanged :: "provider \<Rightarrow> router_event \<Rightarrow> state \<Rightarrow> state \<times> error option" where
  "routeChanged tr event s =
     (let lang = getLocationLang s (event_url event) in
      if isNavigationStart event \<and> truthy lang \<and> lang \<noteq> currentLang s then
        (case translateRoutes tr lang s of
           (s1, Inl e) \<Rightarrow> (s1, Some e)
         | (s1, Inr jobs) \<Rightarrow> (s1, Some TypeError))
      else (s, None))"

text \<open>
  The treatment of the url in \<^verbatim>\<open>changeLanguage\<close> of the later service (lines 49 to
  68 of \<^verbatim>\<open>part_001\<close>): \<open>lang\<close> is \<^verbatim>\<open>parser.currentLang\<close>, which \<^verbatim>\<open>translateRoutes\<close>
  has set to the new language, and \<open>defaultLang\<close> is \<^verbatim>\<open>parser.defaultLang\<close>.
\<close>

definition changeLanguage_url :: "bool \<Rightarrow> string \<Rightarrow> string \<Rightarrow> string \<Rightarrow> string" where
  "changeLanguage_url alwaysSetPrefix lang defaultLang u =
     (if \<not> alwaysSetPrefix then
        (let urlSegments = split_on CHR ''/'' u;
             languageSegmentIndex = indexOf urlSegments lang;
             urlSegments' =
               (if lang = defaultLang then
                  (if languageSegmentIndex = 0 \<or>
                      (languageSegmentIndex = 1 \<and> urlSegments ! 0 = [])
                   then slice urlSegments 0 (nat languageSegmentIndex) @
                        slice_from urlSegments (nat (languageSegmentIndex + 1))
                   else urlSegments)
                else
                  (if languageSegmentIndex = - 1 then
                     (let injectionIndex = (if urlSegments ! 0 = [] then 1 else 0) in
                      slice urlSegments 0 injectionIndex @ [lang] @
                      slice_from urlSegments injectionIndex)
                   else urlSegments))
         in join_with ''/'' urlSegments')
      else u)"

section \<open>The specification's wording, for comparison\<close>

text \<open>
  The members of the locale set among the first and the second component of the url
  path.
\<close>

definition spec_urlLocales :: "string list \<Rightarrow> string \<Rightarrow> string list" where
  "spec_urlLocales localeSet urlPath =
     filter (\<lambda>c. c \<in> set localeSet) (take 2 (split_on CHR ''/'' urlPath))"

text \<open>
  The locale when the url has none: the cached locale if it is not empty and a member
  of the locale set, else the client's locale if it is a member, else the first element
  of the set.
\<close>

definition spec_fallbackLocale :: "string option \<Rightarrow> string option \<Rightarrow> string list \<Rightarrow> string" where
  "spec_fallbackLocale cachedLocale clientLocale localeSet =
     (if (case cachedLocale of None \<Rightarrow> False | Some c \<Rightarrow> c \<noteq> [] \<and> c \<in> set localeSet)
      then the cachedLocale
      else if (case clientLocale of None \<Rightarrow> False | Some b \<Rightarrow> b \<in> set localeSet)
      then the clientLocale
      else hd localeSet)"

text \<open>The invariant of the active locale: unset, or a member of the locale set.\<close>

definition activeLocaleOk :: "state \<Rightarrow> bool" where
  "activeLocaleOk s = (case currentLang s of None \<Rightarrow> True | Some l \<Rightarrow> l \<in> set (locales s))"

text \<open>A navigation occurs in the list before the first occurrence of \<open>a\<close>.\<close>

fun isNavigation :: "effect \<Rightarrow> bool" where
  "isNavigation (NavigateByUrl u) = True"
| "isNavigation e = False"

definition navigated_before :: "effect \<Rightarrow> effect list \<Rightarrow> bool" where
  "navigated_before a xs = list_ex isNavigation (takeWhile (\<lambda>x. x \<noteq> a) xs)"

section \<open>Examples\<close>

text \<open>Lookup tables of the examples: a key without an entry is answered with itself.\<close>

definition fr_lookup :: "string \<Rightarrow> string" where
  "fr_lookup key = (if key = ''ROUTES.about'' then ''a-propos'' else key)"

definition xyz_lookup :: "string \<Rightarrow> string" where
  "xyz_lookup key =
     (if key = ''ROUTES.a'' then ''X''
      else if key = ''ROUTES.b'' then ''Y''
      else if key = ''ROUTES.c'' then ''Z''
      else key)"

definition id_lookup :: "string \<Rightarrow> string" where
  "id_lookup key = (if key = ''ROUTES.:id'' then ''x'' else key)"

text \<open>The states, routes and snapshots of the examples.\<close>

definition tr0 :: provider where
  "tr0 used dflt key = (if used = Some ''fr'' then fr_lookup key else key)"

definition s0 :: state where
  "s0 = \<lparr>locales = [''en'', ''fr''], prefix = ''ROUTES.'', currentLang = None, routes = None,
     originalRouteNames = None, translate_currentLang = None, translate_defaultLang = None,
     browserLang = Some ''de'', hasStorage = True, storedLang = None, pathname = ''/fr/about'',
     effects = []\<rparr>"

definition routes0 :: "route list" where
  "routes0 = [Route (Some ''about'') None None None,
     Route (Some ''user/:id'') None None (Some [Route (Some ''about'') None None None])]"

definition snap0 :: snapshot where
  "snap0 = Snapshot None [] (Some (Snapshot (Some [1]) [''fr'']
     (Some (Snapshot (Some [1, 0]) [''a-propos''] None))))"

text \<open>A route with a child, for the example of the nested translation.\<close>

definition home_routes :: "route list" where
  "home_routes =
     [Route (Some ''home'') None None (Some [Route (Some ''about'') None None None])]"

text \<open>States of the examples: an empty string in the locale set; a cached locale.\<close>

definition s_empty :: state where
  "s_empty = s0\<lparr>locales := [''en'', []], pathname := ''/x'', browserLang := None\<rparr>"

definition s_cached :: state where
  "s_cached = s0\<lparr>storedLang := Some ''fr'', pathname := ''/about''\<rparr>"

text \<open>The state of the examples after the first load.\<close>

definition s1 :: state where
  "s1 = fst (init tr0 routes0 s0)"

section \<open>Properties of the path translation\<close>

lemma split_on_not_Nil: "split_on c s \<noteq> []"
  by (induction s) (auto split: list.splits)

lemma length_restoreMisses: "length (restoreMisses pfx segs i ts) = length ts"
proof (induction pfx segs i ts rule: restoreMisses.induct)
  case (1 pfx segs i ts)
  then show ?case by (subst restoreMisses.simps) auto
qed

lemma restoreMisses_nth:
  "j < length ts \<Longrightarrow>
   restoreMisses pfx segs i ts ! j =
     (if i \<le> j \<and> ts ! j = pfx @ segs ! j then segs ! j else ts ! j)"
proof (induction pfx segs i ts rule: restoreMisses.induct)
  case (1 pfx segs i ts)
  show ?case
  proof (cases "i < length ts")
    case True
    let ?ts' = "if ts ! i = pfx @ segs ! i then ts[i := segs ! i] else ts"
    have len: "j < length ?ts'" using "1.prems" by simp
    have step: "restoreMisses pfx segs i ts = restoreMisses pfx segs (Suc i) ?ts'"
      using True by (subst restoreMisses.simps) simp
    show ?thesis
      unfolding step using "1.IH"[OF True len] "1.prems" True
      by (auto simp: nth_list_update less_Suc_eq_le)
  next
    case False
    then show ?thesis using "1.prems" by (subst restoreMisses.simps) simp
  qed
qed

lemma length_routeObservables: "length (routeObservables pfx segs) = length segs"
  by (simp add: routeObservables_def)

lemma restoreMisses_emitted:
  "restoreMisses pfx segs 0 (map (emitted lk) (routeObservables pfx segs)) =
     map (translateSegment pfx lk) segs"
proof (rule nth_equalityI)
  show "length (restoreMisses pfx segs 0 (map (emitted lk) (routeObservables pfx segs))) =
        length (map (translateSegment pfx lk) segs)"
    by (simp add: length_restoreMisses routeObservables_def)
next
  fix j
  assume "j < length (restoreMisses pfx segs 0 (map (emitted lk) (routeObservables pfx segs)))"
  then have j: "j < length segs"
    by (simp add: length_restoreMisses routeObservables_def)
  then show "restoreMisses pfx segs 0 (map (emitted lk) (routeObservables pfx segs)) ! j =
             map (translateSegment pfx lk) segs ! j"
    by (simp add: restoreMisses_nth routeObservables_def translateSegment_def)
qed

lemma translatedSegments_map:
  "translatedSegments pfx lk fullPath = map (translateSegment pfx lk) (split_on CHR ''/'' fullPath)"
  unfolding translatedSegments_def Let_def by (simp only: restoreMisses_emitted)

lemma translateRoute_join:
  "translateRoute pfx lk fullPath = join_with ''/'' (translatedSegments pfx lk fullPath)"
  unfolding translateRoute_def translatedSegments_def Let_def translateRoute_next_def ..

lemma forkJoin_slots:
  "length s = length results \<Longrightarrow>
   length (fold (\<lambda>i s. if i < length results then s[i := Some (results ! i)] else s) order s) =
     length results
   \<and> (\<forall>j < length results.
        fold (\<lambda>i s. if i < length results then s[i := Some (results ! i)] else s) order s ! j =
          (if j \<in> set order then Some (results ! j) else s ! j))"
  by (induction order arbitrary: s) (auto simp: nth_list_update)

lemma forkJoin_complete:
  assumes "{0..<length results} \<subseteq> set order"
  shows "forkJoin order results = Some results"
proof -
  let ?f = "\<lambda>i s. if i < length results then s[i := Some (results ! i)] else s"
  let ?slots = "fold ?f order (replicate (length results) None)"
  have len: "length ?slots = length results"
    using forkJoin_slots[of "replicate (length results) None" results order] by simp
  have nth: "?slots ! j = Some (results ! j)" if "j < length results" for j
    using forkJoin_slots[of "replicate (length results) None" results order] that assms
    by auto
  have eq: "?slots = map Some results"
    by (rule nth_equalityI) (simp_all add: len nth)
  show ?thesis
    unfolding forkJoin_def Let_def eq by (simp add: list_all_iff comp_def)
qed

lemma forkJoin_pending:
  assumes "j < length results" "j \<notin> set order"
  shows "forkJoin order results = None"
proof -
  let ?f = "\<lambda>i s. if i < length results then s[i := Some (results ! i)] else s"
  let ?slots = "fold ?f order (replicate (length results) None)"
  have len: "length ?slots = length results"
    using forkJoin_slots[of "replicate (length results) None" results order] by simp
  have "?slots ! j = None"
    using forkJoin_slots[of "replicate (length results) None" results order] assms by simp
  moreover have "?slots ! j \<in> set ?slots"
    using len assms(1) by (intro nth_mem) simp
  ultimately have "\<not> list_all (\<lambda>v. v \<noteq> None) ?slots"
    unfolding list_all_iff by force
  then show ?thesis
    unfolding forkJoin_def Let_def by (simp only: if_False)
qed

text \<open>
  C3. \<^verbatim>\<open>translateRoute\<close> splits the path on \<open>/\<close>. An empty component is a constant
  observable (no lookup) and stays as it is; a component \<open>s\<close> that is not empty is looked
  up under the key \<open>prefix + s\<close>, and its result is \<open>s\<close> when the lookup answers with
  that key and the answer of the lookup otherwise. The results are joined with \<open>/\<close>.
\<close>

theorem translateRoute_per_component:
  "translateRoute pfx lk fullPath =
     join_with ''/'' (map (translateSegment pfx lk) (split_on CHR ''/'' fullPath))
   \<and> routeObservables pfx (split_on CHR ''/'' fullPath) =
       map (\<lambda>s. if s = [] then ObservableOf s else TranslateGet (pfx @ s))
         (split_on CHR ''/'' fullPath)"
proof
  show "translateRoute pfx lk fullPath =
     join_with ''/'' (map (translateSegment pfx lk) (split_on CHR ''/'' fullPath))"
    by (simp only: translateRoute_join translatedSegments_map)
next
  show "routeObservables pfx (split_on CHR ''/'' fullPath) =
       map (\<lambda>s. if s = [] then ObservableOf s else TranslateGet (pfx @ s))
         (split_on CHR ''/'' fullPath)"
    by (simp add: routeObservables_def)
qed

theorem translateRoute_per_component_witness:
  "translateRoute ''ROUTES.'' fr_lookup ''/about//team'' = ''/a-propos//team''
   \<and> routeObservables ''ROUTES.'' (split_on CHR ''/'' ''/about//team'') =
       [ObservableOf [], TranslateGet ''ROUTES.about'', ObservableOf [],
        TranslateGet ''ROUTES.team'']"
  using translateRoute_per_component [of "''ROUTES.''" fr_lookup "''/about//team''"]
  by (simp add: translateSegment_def fr_lookup_def)

text \<open>
  C4. The path is emitted once every lookup of its components has completed, and not
  before; whatever the order in which the lookups complete, it is the results of the
  components joined with \<open>/\<close> in the order of the components: for \<open>a/b/c\<close> with \<open>a\<close>,
  \<open>b\<close>, \<open>c\<close> translated to \<open>X\<close>, \<open>Y\<close>, \<open>Z\<close> it is \<open>X/Y/Z\<close>.
\<close>

theorem translateRoute_order_stable:
  "translateRoute_scheduled order pfx lk fullPath =
     (if {0..<length (split_on CHR ''/'' fullPath)} \<subseteq> set order
      then Some (join_with ''/'' (map (translateSegment pfx lk) (split_on CHR ''/'' fullPath)))
      else None)"
proof (cases "{0..<length (split_on CHR ''/'' fullPath)} \<subseteq> set order")
  case True
  let ?segs = "split_on CHR ''/'' fullPath"
  let ?res = "map (emitted lk) (routeObservables pfx ?segs)"
  have "length ?res = length ?segs"
    by (simp add: length_routeObservables)
  with True have "forkJoin order ?res = Some ?res"
    by (intro forkJoin_complete) simp
  then have "translateRoute_scheduled order pfx lk fullPath =
      Some (join_with ''/'' (map (translateSegment pfx lk) ?segs))"
    unfolding translateRoute_scheduled_def Let_def translateRoute_next_def
    by (simp only: option.case restoreMisses_emitted)
  with True show ?thesis by (simp only: if_True)
next
  case False
  let ?segs = "split_on CHR ''/'' fullPath"
  let ?res = "map (emitted lk) (routeObservables pfx ?segs)"
  from False have "\<exists>j. j < length ?segs \<and> j \<notin> set order"
    by (auto simp: subset_eq)
  then obtain j where j: "j < length ?segs" "j \<notin> set order"
    by blast
  then have "j < length ?res"
    by (simp add: length_routeObservables)
  from forkJoin_pending[OF this j(2)]
  have "translateRoute_scheduled order pfx lk fullPath = None"
    unfolding translateRoute_scheduled_def Let_def by (simp only: option.case)
  with False show ?thesis by (simp only: if_False)
qed

theorem translateRoute_order_stable_witness:
  "translateRoute_scheduled [2, 0, 1] ''ROUTES.'' xyz_lookup ''a/b/c'' = Some ''X/Y/Z''
   \<and> translateRoute_scheduled [1, 2, 0] ''ROUTES.'' xyz_lookup ''a/b/c'' = Some ''X/Y/Z''
   \<and> translateRoute_scheduled [2, 0] ''ROUTES.'' xyz_lookup ''a/b/c'' = None"
proof -
  have n: "{0..<length (split_on CHR ''/'' ''a/b/c'')} = {0, 1, 2}"
    by (auto simp: atLeastLessThan_def)
  show ?thesis
    using translateRoute_order_stable [of "[2, 0, 1]" "''ROUTES.''" xyz_lookup "''a/b/c''"]
      translateRoute_order_stable [of "[1, 2, 0]" "''ROUTES.''" xyz_lookup "''a/b/c''"]
      translateRoute_order_stable [of "[2, 0]" "''ROUTES.''" xyz_lookup "''a/b/c''"]
    unfolding n by (simp add: translateSegment_def xyz_lookup_def)
qed

text \<open>
  C9, as the code has it. A component that begins with \<open>:\<close> is looked up like any
  other, under the key \<open>prefix + component\<close>; it is left as it is when the lookup
  provider has no text for that key and answers with the key itself.
\<close>

theorem param_segment_kept_on_miss:
  assumes "i < length (split_on CHR ''/'' fullPath)"
    and "split_on CHR ''/'' fullPath ! i = CHR '':'' # name"
    and "lk (pfx @ CHR '':'' # name) = pfx @ CHR '':'' # name"
  shows "translatedSegments pfx lk fullPath ! i = CHR '':'' # name
    \<and> routeObservables pfx (split_on CHR ''/'' fullPath) ! i = TranslateGet (pfx @ CHR '':'' # name)"
  using assms by (simp add: translatedSegments_map translateSegment_def routeObservables_def)

theorem param_segment_kept_on_miss_witness:
  "translatedSegments ''ROUTES.'' fr_lookup ''user/:id'' ! 1 = '':id''
   \<and> routeObservables ''ROUTES.'' (split_on CHR ''/'' ''user/:id'') ! 1 = TranslateGet ''ROUTES.:id''"
  using param_segment_kept_on_miss [of 1 "''user/:id''" "''id''" fr_lookup "''ROUTES.''"]
  by (simp add: fr_lookup_def)

text \<open>
  C9 as stated fails: with a text registered under \<open>ROUTES.:id\<close>, the component \<open>:id\<close>
  of \<open>user/:id\<close> is replaced by it.
\<close>

theorem param_segment_translated_counterexample:
  "\<not> (\<forall>lk. translatedSegments ''ROUTES.'' lk ''user/:id'' ! 1 = '':id'')"
proof
  assume "\<forall>lk. translatedSegments ''ROUTES.'' lk ''user/:id'' ! 1 = '':id''"
  then have "translatedSegments ''ROUTES.'' id_lookup ''user/:id'' ! 1 = '':id''" ..
  then show False
    by (simp add: translatedSegments_map translateSegment_def id_lookup_def)
qed

section \<open>Properties of the tree translation\<close>

lemma translateProperties_children:
  "translateProperties pfx lk addr original route = (route1, jobs, e) \<Longrightarrow>
   children route1 = children route"
  by (cases route; cases original)
     (auto simp: translateProperties_def translateProperty_def getTranslatePromise_def
           split: if_splits option.splits sum.splits)

lemma translateProperties_setChildren:
  "translateProperties pfx lk addr original route = (route1, jobs, e) \<Longrightarrow>
   translateProperties pfx lk addr original (setChildren route cs) = (setChildren route1 cs, jobs, e)"
  by (cases route; cases original)
     (auto simp: translateProperties_def translateProperty_def getTranslatePromise_def
           split: if_splits option.splits sum.splits)

lemma translateProperties_again:
  "translateProperties pfx lk addr original route = (route1, jobs, None) \<Longrightarrow>
   \<exists>jobs'. translateProperties pfx lk addr original route1 = (route1, jobs', None)"
  by (cases route; cases original)
     (auto simp: translateProperties_def translateProperty_def getTranslatePromise_def
           split: if_splits option.splits sum.splits)

lemma translateRouteTree_Cons:
  "translateRouteTree pfx lk pre index (route # rest) originals =
     (case originals of
        None \<Rightarrow> TreeResult (route # rest) [] [] (Some TypeError)
      | Some os \<Rightarrow>
          (case translateProperties pfx lk (pre @ [index]) (nth_opt os index) route of
             (route1, jobs, Some e) \<Rightarrow> TreeResult (route1 # rest) jobs [] (Some e)
           | (route1, jobs, None) \<Rightarrow>
               (case children route of
                  None \<Rightarrow>
                    prepend route1 jobs jobs
                      (translateRouteTree pfx lk pre (Suc index) rest originals)
                | Some cs \<Rightarrow>
                    (case nth_opt os index of
                       None \<Rightarrow> TreeResult (route1 # rest) jobs [] (Some TypeError)
                     | Some original \<Rightarrow>
                         (case translateRouteTree pfx lk (pre @ [index]) 0 cs (children original) of
                            TreeResult cs' st pr (Some e) \<Rightarrow>
                              TreeResult (setChildren route1 cs' # rest) (jobs @ st) [] (Some e)
                          | TreeResult cs' st pr None \<Rightarrow>
                              prepend (setChildren route1 cs') (jobs @ st) jobs
                                (translateRouteTree pfx lk pre (Suc index) rest originals))))))"
  by (cases route) (simp split: option.splits prod.splits)

lemma live_prepend: "live (prepend route st pr res) = route # live res"
  by (cases res) simp

lemma thrown_prepend: "thrown (prepend route st pr res) = thrown res"
  by (cases res) simp

lemma children_setChildren: "children (setChildren route cs) = Some cs"
  by (cases route) simp

lemma setChildren_twice: "setChildren (setChildren route cs) cs' = setChildren route cs'"
  by (cases route) simp

lemma translateRouteTree_again:
  "thrown (translateRouteTree pfx lk pre index nodes originals) = None \<Longrightarrow>
   live (translateRouteTree pfx lk pre index
          (live (translateRouteTree pfx lk pre index nodes originals)) originals) =
     live (translateRouteTree pfx lk pre index nodes originals)
   \<and> thrown (translateRouteTree pfx lk pre index
          (live (translateRouteTree pfx lk pre index nodes originals)) originals) = None"
proof (induction pfx lk pre index nodes originals rule: translateRouteTree.induct)
  case (1 pfx lk pre index originals)
  show ?case by simp
next
  case (2 pfx lk pre index p r m c rest originals)
  let ?route = "Route p r m c"
  from "2.prems" obtain os where os: "originals = Some os"
    by (cases originals) simp_all
  obtain route1 jobs e where tp:
    "translateProperties pfx lk (pre @ [index]) (nth_opt os index) ?route = (route1, jobs, e)"
    by (cases "translateProperties pfx lk (pre @ [index]) (nth_opt os index) ?route") auto
  from "2.prems" os tp have e: "e = None"
    by (cases e) simp_all
  from translateProperties_again[OF tp[unfolded e]] obtain jobs' where again:
    "translateProperties pfx lk (pre @ [index]) (nth_opt os index) route1 = (route1, jobs', None)"
    by blast
  have ch1: "children route1 = c"
    using translateProperties_children[OF tp] by simp
  show ?case
  proof (cases c)
    case None
    have first: "translateRouteTree pfx lk pre index (?route # rest) originals =
        prepend route1 jobs jobs (translateRouteTree pfx lk pre (Suc index) rest originals)"
      using os tp e None by simp
    have rest_ok: "thrown (translateRouteTree pfx lk pre (Suc index) rest originals) = None"
      using "2.prems" unfolding first by (simp add: thrown_prepend)
    note IH = "2.IH"(1)[OF os tp[symmetric] refl e None rest_ok]
    show ?thesis
      unfolding first live_prepend
      using IH os again ch1 None tp e
      by (simp add: translateRouteTree_Cons live_prepend thrown_prepend del: translateRouteTree.simps(2))
  next
    case (Some cs)
    from "2.prems" os tp e Some obtain original where orig: "nth_opt os index = Some original"
      by (cases "nth_opt os index") simp_all
    obtain cs' st pr e' where sub:
      "translateRouteTree pfx lk (pre @ [index]) 0 cs (children original) = TreeResult cs' st pr e'"
      by (cases "translateRouteTree pfx lk (pre @ [index]) 0 cs (children original)") auto
    from "2.prems" os tp e Some orig sub have e': "e' = None"
      by (cases e') simp_all
    have first: "translateRouteTree pfx lk pre index (?route # rest) originals =
        prepend (setChildren route1 cs') (jobs @ st) jobs
          (translateRouteTree pfx lk pre (Suc index) rest originals)"
      using os tp e Some orig sub e' by simp
    have rest_ok: "thrown (translateRouteTree pfx lk pre (Suc index) rest originals) = None"
      using "2.prems" unfolding first by (simp add: thrown_prepend)
    have sub_ok: "thrown (translateRouteTree pfx lk (pre @ [index]) 0 cs (children original)) = None"
      using sub e' by simp
    note IHsub = "2.IH"(2)[OF os tp[symmetric] refl e Some orig sub_ok]
    note IHrest = "2.IH"(3)[OF os tp[symmetric] refl e Some orig sub e' rest_ok]
    have again': "translateProperties pfx lk (pre @ [index]) (nth_opt os index)
        (setChildren route1 cs') = (setChildren route1 cs', jobs', None)"
      using translateProperties_setChildren[OF again] by (cases route1) simp
    obtain st2 pr2 where sub2:
      "translateRouteTree pfx lk (pre @ [index]) 0 cs' (children original) = TreeResult cs' st2 pr2 None"
      using IHsub unfolding sub
      by (cases "translateRouteTree pfx lk (pre @ [index]) 0 cs' (children original)") auto
    show ?thesis
      unfolding first live_prepend
      using IHrest os again' orig sub2
      by (simp add: translateRouteTree_Cons live_prepend thrown_prepend children_setChildren
          setChildren_twice del: translateRouteTree.simps(2))
  qed
qed

text \<open>
  C1. The promise \<^verbatim>\<open>_translateRouteTree\<close> returns is \<^verbatim>\<open>Promise.all\<close> of the
  translations of the nodes of its own level only: the promise of the call for the
  children is dropped. Here the translation of the child, at \<open>[1, 0, 0]\<close>, is started and
  is not among the promises waited for, so the claim that the returned promise settles
  only after every node of the tree has settled fails on the code.
\<close>

theorem nested_translation_not_awaited:
  "translateRouteTree ''ROUTES.'' fr_lookup [1] 0 home_routes (Some home_routes) =
     TreeResult
       [Route (Some ''home'') None None (Some [Route (Some ''a-propos'') None None None])]
       [([1, 0], Path), ([1, 0, 0], Path)]
       [([1, 0], Path)]
       None"
  by (simp add: home_routes_def translateProperties_def translateProperty_def
      getTranslatePromise_def nth_opt_def translateRoute_join translatedSegments_map
      translateSegment_def fr_lookup_def)

lemma translateProperties_source:
  assumes "translateProperties pfx lk addr original route = (route1, jobs, None)"
    and "truthy (getProperty route property)"
  shows "\<exists>orig src. original = Some orig \<and> getProperty orig property = Some src \<and>
           getProperty route1 property = Some (translateRoute pfx lk src)"
  using assms
  by (cases route; cases original; cases property)
     (auto simp: translateProperties_def translateProperty_def getTranslatePromise_def
           split: if_splits option.splits sum.splits)

lemma translateProperties_kept:
  assumes "translateProperties pfx lk addr original route = (route1, jobs, None)"
    and "\<not> truthy (getProperty route property)"
  shows "getProperty route1 property = getProperty route property"
  using assms
  by (cases route; cases original; cases property)
     (auto simp: translateProperties_def translateProperty_def getTranslatePromise_def
           split: if_splits option.splits sum.splits)

lemma getProperty_setChildren: "getProperty (setChildren route cs) property = getProperty route property"
  by (cases route; cases property) simp_all

lemma translateRouteTree_Cons_ok:
  assumes "thrown (translateRouteTree pfx lk pre index (route # rest) originals) = None"
  shows "\<exists>os route1 jobs r'.
           originals = Some os \<and>
           translateProperties pfx lk (pre @ [index]) (nth_opt os index) route = (route1, jobs, None) \<and>
           live (translateRouteTree pfx lk pre index (route # rest) originals) =
             r' # live (translateRouteTree pfx lk pre (Suc index) rest originals) \<and>
           (\<forall>property. getProperty r' property = getProperty route1 property) \<and>
           thrown (translateRouteTree pfx lk pre (Suc index) rest originals) = None"
  using assms
  by (auto simp: translateRouteTree_Cons live_prepend thrown_prepend getProperty_setChildren
      simp del: translateRouteTree.simps(2)
      split: option.splits prod.splits tree_result.splits)

lemma translateRouteTree_source:
  assumes "thrown (translateRouteTree pfx lk pre index nodes originals) = None"
    and "i < length nodes"
  shows "\<exists>os. originals = Some os \<and>
     (if truthy (getProperty (nodes ! i) property) then
        (\<exists>orig src. nth_opt os (index + i) = Some orig \<and> getProperty orig property = Some src \<and>
           getProperty (live (translateRouteTree pfx lk pre index nodes originals) ! i) property =
             Some (translateRoute pfx lk src))
      else getProperty (live (translateRouteTree pfx lk pre index nodes originals) ! i) property =
             getProperty (nodes ! i) property)"
  using assms
proof (induction nodes arbitrary: index i)
  case Nil
  then show ?case by simp
next
  case (Cons route rest)
  from translateRouteTree_Cons_ok[OF Cons.prems(1)] obtain os route1 jobs r' where
    os: "originals = Some os"
    and tp: "translateProperties pfx lk (pre @ [index]) (nth_opt os index) route = (route1, jobs, None)"
    and lv: "live (translateRouteTree pfx lk pre index (route # rest) originals) =
             r' # live (translateRouteTree pfx lk pre (Suc index) rest originals)"
    and r': "\<And>property. getProperty r' property = getProperty route1 property"
    and ok: "thrown (translateRouteTree pfx lk pre (Suc index) rest originals) = None"
    by blast
  show ?case
  proof (cases i)
    case 0
    show ?thesis
      using translateProperties_source[OF tp, of property] translateProperties_kept[OF tp, of property]
      unfolding lv 0 by (auto simp: os r')
  next
    case (Suc k)
    with Cons.prems(2) have k: "k < length rest" by simp
    show ?thesis
      using Cons.IH[OF ok k] os unfolding lv Suc by (auto split: if_splits)
  qed
qed

section \<open>Properties of the parser\<close>

lemma indexOf_from_ge: "x \<in> set xs \<Longrightarrow> k \<le> indexOf_from k xs x"
proof (induction xs arbitrary: k)
  case Nil
  then show ?case by simp
next
  case (Cons y ys)
  show ?case
  proof (cases "y = x")
    case True
    then show ?thesis by simp
  next
    case False
    with Cons.prems have "x \<in> set ys" by simp
    from Cons.IH[OF this, of "k + 1"] False show ?thesis by simp
  qed
qed

lemma indexOf_from_notin: "x \<notin> set xs \<Longrightarrow> indexOf_from k xs x = - 1"
  by (induction xs arbitrary: k) auto

lemma indexOf_minus1_iff: "indexOf xs x = - 1 \<longleftrightarrow> x \<notin> set xs"
  using indexOf_from_ge[of x xs 0] indexOf_from_notin[of x xs 0]
  by (auto simp: indexOf_def)

lemma copyRoute_id: "copyRoute r = r"
  by (induction r) (auto intro!: option.map_ident_strong map_idI)

lemma deepCopy_id: "deepCopy rs = rs"
  by (simp add: deepCopy_def copyRoute_id map_idI)

lemma translateProperties_self:
  "\<exists>route1 jobs. translateProperties pfx lk addr (Some route) route = (route1, jobs, None)"
  by (cases route)
     (auto simp: translateProperties_def translateProperty_def getTranslatePromise_def
           split: if_splits option.splits sum.splits)

lemma Cons_eq_drop:
  assumes "x # xs = drop n ys"
  shows "n < length ys \<and> ys ! n = x \<and> xs = drop (Suc n) ys"
proof -
  have n: "n < length ys"
  proof (rule ccontr)
    assume "\<not> n < length ys"
    then have "drop n ys = []" by simp
    with assms show False by simp
  qed
  from Cons_nth_drop_Suc[OF n] assms have "ys ! n # drop (Suc n) ys = x # xs" by simp
  then show ?thesis using n by simp
qed

lemma translateRouteTree_self_drop:
  "originals = Some os \<Longrightarrow> nodes = drop index os \<Longrightarrow>
   thrown (translateRouteTree pfx lk pre index nodes originals) = None"
proof (induction pfx lk pre index nodes originals arbitrary: os rule: translateRouteTree.induct)
  case (1 pfx lk pre index originals)
  show ?case by simp
next
  case (2 pfx lk pre index p r m c rest originals)
  let ?route = "Route p r m c"
  from "2.prems" have os: "originals = Some os" by simp
  from Cons_eq_drop[of ?route rest index os] "2.prems"
  have idx: "index < length os" and hd: "os ! index = ?route"
    and rest: "rest = drop (Suc index) os"
    by simp_all
  have orig: "nth_opt os index = Some ?route"
    using idx hd by (simp add: nth_opt_def)
  obtain route1 jobs where tp:
    "translateProperties pfx lk (pre @ [index]) (nth_opt os index) ?route = (route1, jobs, None)"
    using translateProperties_self[of pfx lk "pre @ [index]" ?route] unfolding orig by blast
  have rest_ok: "thrown (translateRouteTree pfx lk pre (Suc index) rest originals) = None"
    if "c = None \<or> (\<exists>cs cs' st pr. c = Some cs \<and>
          translateRouteTree pfx lk (pre @ [index]) 0 cs (children ?route) = TreeResult cs' st pr None)"
    using that
  proof
    assume "c = None"
    from "2.IH"(1)[OF os tp[symmetric] refl refl this os rest] show ?thesis .
  next
    assume "\<exists>cs cs' st pr. c = Some cs \<and>
          translateRouteTree pfx lk (pre @ [index]) 0 cs (children ?route) = TreeResult cs' st pr None"
    then obtain cs cs' st pr where c: "c = Some cs" and sub:
      "translateRouteTree pfx lk (pre @ [index]) 0 cs (children ?route) = TreeResult cs' st pr None"
      by blast
    from "2.IH"(3)[OF os tp[symmetric] refl refl c orig sub refl os rest] show ?thesis .
  qed
  show ?case
  proof (cases c)
    case None
    then show ?thesis
      using os tp rest_ok by (simp add: thrown_prepend)
  next
    case (Some cs)
    have "children ?route = Some cs" using Some by simp
    from "2.IH"(2)[OF os tp[symmetric] refl refl Some orig this] 
    have sub_ok: "thrown (translateRouteTree pfx lk (pre @ [index]) 0 cs (children ?route)) = None"
      by simp
    then obtain cs' st pr where sub:
      "translateRouteTree pfx lk (pre @ [index]) 0 cs (children ?route) = TreeResult cs' st pr None"
      by (cases "translateRouteTree pfx lk (pre @ [index]) 0 cs (children ?route)") auto
    with Some rest_ok
    have "thrown (translateRouteTree pfx lk pre (Suc index) rest originals) = None"
      by blast
    then show ?thesis
      using os tp Some orig sub by (simp add: thrown_prepend)
  qed
qed

lemma translateRouteTree_self:
  "thrown (translateRouteTree pfx lk pre 0 nodes (Some nodes)) = None"
  by (rule translateRouteTree_self_drop[of _ nodes]) simp_all

lemma returnIfInLocales_cong:
  "locales s' = locales s \<Longrightarrow> returnIfInLocales s' v = returnIfInLocales s v"
  by (cases v) (simp_all add: returnIfInLocales_def)

lemma get_cachedLang_cong:
  "locales s' = locales s \<Longrightarrow> hasStorage s' = hasStorage s \<Longrightarrow> storedLang s' = storedLang s \<Longrightarrow>
   get_cachedLang s' = get_cachedLang s"
  by (simp add: get_cachedLang_def returnIfInLocales_cong[of s' s])

lemma getBrowserLang_cong:
  "locales s' = locales s \<Longrightarrow> browserLang s' = browserLang s \<Longrightarrow>
   getBrowserLang s' = getBrowserLang s"
  by (simp add: getBrowserLang_def returnIfInLocales_cong[of s' s])

lemma getLocationLang_cong:
  "locales s' = locales s \<Longrightarrow> pathname s' = pathname s \<Longrightarrow>
   getLocationLang s' u = getLocationLang s u"
  unfolding getLocationLang_def by (elim ssubst) (rule refl)

lemma translateRoutes_fields:
  "currentLang (fst (translateRoutes tr language s)) = language"
  "locales (fst (translateRoutes tr language s)) = locales s"
  "translate_defaultLang (fst (translateRoutes tr language s)) = translate_defaultLang s"
  "translate_currentLang (fst (translateRoutes tr language s)) = language"
  "originalRouteNames (fst (translateRoutes tr language s)) = originalRouteNames s"
  "prefix (fst (translateRoutes tr language s)) = prefix s"
  by (simp_all add: translateRoutes_def Let_def set_cachedLang_def
      split: option.splits route.splits)

lemma translateRoutes_routes:
  assumes "routes s = Some rs" "nth_opt rs 1 = Some (Route p r m (Some cs))"
    and "thrown (translateRouteTree (prefix s) (tr language (translate_defaultLang s)) [1] 0 cs
           (originalRouteNames s)) = None"
  shows "routes (fst (translateRoutes tr language s)) =
           Some (rs[1 := Route language r m
             (Some (live (translateRouteTree (prefix s) (tr language (translate_defaultLang s))
                [1] 0 cs (originalRouteNames s))))])"
    and "snd (translateRoutes tr language s) =
           Inr (started (translateRouteTree (prefix s) (tr language (translate_defaultLang s))
                  [1] 0 cs (originalRouteNames s)),
                promises (translateRouteTree (prefix s) (tr language (translate_defaultLang s))
                  [1] 0 cs (originalRouteNames s)))"
  using assms
  by (simp_all add: translateRoutes_def Let_def set_cachedLang_def)

lemma init_first_unfold:
  assumes "routes s = None" "locales s \<noteq> []"
  shows "init tr newRoutes s =
     translateRoutes tr
       (or_else (getLocationLang s None)
          (or_else (or_else (get_cachedLang s) (getBrowserLang s)) (Some (locales s ! 0))))
       (s\<lparr>originalRouteNames := Some newRoutes,
          translate_defaultLang :=
            or_else (or_else (get_cachedLang s) (getBrowserLang s)) (Some (locales s ! 0)),
          effects := effects s @ [SetDefaultLang
            (or_else (or_else (get_cachedLang s) (getBrowserLang s)) (Some (locales s ! 0)))],
          routes := Some [Route (Some [])
                 (or_else (or_else (get_cachedLang s) (getBrowserLang s)) (Some (locales s ! 0)))
                 (Some ''full'') None,
               Route None None None (Some newRoutes)]\<rparr>)"
proof -
  let ?s1 = "s\<lparr>routes := Some newRoutes, originalRouteNames := Some (deepCopy newRoutes)\<rparr>"
  have a: "get_cachedLang ?s1 = get_cachedLang s"
    by (rule get_cachedLang_cong) simp_all
  have b: "getBrowserLang ?s1 = getBrowserLang s"
    by (rule getBrowserLang_cong) simp_all
  have c: "getLocationLang ?s1 None = getLocationLang s None"
    by (rule getLocationLang_cong) simp_all
  show ?thesis
    unfolding init_def Let_def a b c using assms
    by (simp add: deepCopy_id)
qed

lemma init_first:
  assumes "routes s = None" "locales s \<noteq> []"
  shows "currentLang (fst (init tr newRoutes s)) =
           or_else (getLocationLang s None)
             (or_else (or_else (get_cachedLang s) (getBrowserLang s)) (Some (locales s ! 0)))"
    and "translate_defaultLang (fst (init tr newRoutes s)) =
           or_else (or_else (get_cachedLang s) (getBrowserLang s)) (Some (locales s ! 0))"
    and "originalRouteNames (fst (init tr newRoutes s)) = Some newRoutes"
    and "locales (fst (init tr newRoutes s)) = locales s"
  unfolding init_first_unfold[OF assms] by (simp_all add: translateRoutes_fields)

lemma init_first_routes:
  assumes "routes s = None" "locales s \<noteq> []"
  shows "routes (fst (init tr newRoutes s)) =
           Some [Route (Some []) (translate_defaultLang (fst (init tr newRoutes s))) (Some ''full'') None,
                 Route (currentLang (fst (init tr newRoutes s))) None None
                   (Some (live (translateRouteTree (prefix s)
                      (tr (currentLang (fst (init tr newRoutes s)))
                          (translate_defaultLang (fst (init tr newRoutes s))))
                      [1] 0 newRoutes (Some newRoutes))))]"
    and "\<exists>jobs. snd (init tr newRoutes s) = Inr jobs"
proof -
  let ?dl = "or_else (or_else (get_cachedLang s) (getBrowserLang s)) (Some (locales s ! 0))"
  let ?sel = "or_else (getLocationLang s None) ?dl"
  let ?s3 = "s\<lparr>originalRouteNames := Some newRoutes,
          translate_defaultLang := ?dl,
          effects := effects s @ [SetDefaultLang ?dl],
          routes := Some [Route (Some []) ?dl (Some ''full'') None,
               Route None None None (Some newRoutes)]\<rparr>"
  have r: "routes ?s3 = Some [Route (Some []) ?dl (Some ''full'') None,
               Route None None None (Some newRoutes)]" by simp
  have n: "nth_opt [Route (Some []) ?dl (Some ''full'') None,
               Route None None None (Some newRoutes)] 1 = Some (Route None None None (Some newRoutes))"
    by (simp add: nth_opt_def)
  have t: "thrown (translateRouteTree (prefix ?s3) (tr ?sel (translate_defaultLang ?s3)) [1] 0 newRoutes
           (originalRouteNames ?s3)) = None"
    by (simp add: translateRouteTree_self)
  have i: "init tr newRoutes s = translateRoutes tr ?sel ?s3"
    by (rule init_first_unfold[OF assms])
  have R: "routes (fst (translateRoutes tr ?sel ?s3)) =
      Some [Route (Some []) ?dl (Some ''full'') None,
            Route ?sel None None
              (Some (live (translateRouteTree (prefix s) (tr ?sel ?dl) [1] 0 newRoutes (Some newRoutes))))]"
    using translateRoutes_routes(1)[where s = ?s3 and tr = tr and language = ?sel, OF r n t] by simp
  have S: "snd (translateRoutes tr ?sel ?s3) =
      Inr (started (translateRouteTree (prefix s) (tr ?sel ?dl) [1] 0 newRoutes (Some newRoutes)),
           promises (translateRouteTree (prefix s) (tr ?sel ?dl) [1] 0 newRoutes (Some newRoutes)))"
    using translateRoutes_routes(2)[where s = ?s3 and tr = tr and language = ?sel, OF r n t] by simp
  show "routes (fst (init tr newRoutes s)) =
           Some [Route (Some []) (translate_defaultLang (fst (init tr newRoutes s))) (Some ''full'') None,
                 Route (currentLang (fst (init tr newRoutes s))) None None
                   (Some (live (translateRouteTree (prefix s)
                      (tr (currentLang (fst (init tr newRoutes s)))
                          (translate_defaultLang (fst (init tr newRoutes s))))
                      [1] 0 newRoutes (Some newRoutes))))]"
    unfolding init_first[OF assms] unfolding i R ..
  show "\<exists>jobs. snd (init tr newRoutes s) = Inr jobs"
    unfolding i S by blast
qed

lemma translateRoutes_Inr:
  assumes "translateRoutes tr language s = (s', Inr jobs)"
  shows "\<exists>rs p r m cs. routes s = Some rs \<and> nth_opt rs 1 = Some (Route p r m (Some cs)) \<and>
     thrown (translateRouteTree (prefix s) (tr language (translate_defaultLang s)) [1] 0 cs
           (originalRouteNames s)) = None"
  using assms
  by (auto simp: translateRoutes_def Let_def set_cachedLang_def
      split: option.splits route.splits if_splits)

lemma translateRoutes_again:
  assumes "translateRoutes tr language s = (s', Inr jobs)"
  shows "routes (fst (translateRoutes tr language s')) = routes s'
    \<and> (\<exists>jobs'. snd (translateRoutes tr language s') = Inr jobs')"
proof -
  from translateRoutes_Inr[OF assms] obtain rs p r m cs where
    rs: "routes s = Some rs" and n: "nth_opt rs 1 = Some (Route p r m (Some cs))"
    and ok: "thrown (translateRouteTree (prefix s) (tr language (translate_defaultLang s)) [1] 0 cs
           (originalRouteNames s)) = None"
    by blast
  let ?lk = "tr language (translate_defaultLang s)"
  let ?res = "translateRouteTree (prefix s) ?lk [1] 0 cs (originalRouteNames s)"
  let ?rs1 = "rs[1 := Route language r m (Some (live ?res))]"
  have eq: "s' = fst (translateRoutes tr language s)"
    using assms by simp
  have f: "prefix s' = prefix s" "translate_defaultLang s' = translate_defaultLang s"
    "originalRouteNames s' = originalRouteNames s"
    unfolding eq by (simp_all add: translateRoutes_fields)
  have r1: "routes s' = Some ?rs1"
    unfolding eq by (rule translateRoutes_routes(1)[where s = s and tr = tr and language = language, OF rs n ok])
  have len: "1 < length rs"
    using n by (simp add: nth_opt_def split: if_splits)
  then have n1: "nth_opt ?rs1 1 = Some (Route language r m (Some (live ?res)))"
    by (simp add: nth_opt_def)
  have again: "live (translateRouteTree (prefix s) ?lk [1] 0 (live ?res) (originalRouteNames s)) =
      live ?res"
    and ok1: "thrown (translateRouteTree (prefix s) ?lk [1] 0 (live ?res) (originalRouteNames s)) = None"
    using translateRouteTree_again[OF ok] by simp_all
  have ok1': "thrown (translateRouteTree (prefix s') (tr language (translate_defaultLang s')) [1] 0
      (live ?res) (originalRouteNames s')) = None"
    unfolding f by (rule ok1)
  have "routes (fst (translateRoutes tr language s')) = Some ?rs1"
    unfolding translateRoutes_routes(1)[where s = s' and tr = tr and language = language, OF r1 n1 ok1']
    unfolding f again by simp
  moreover have "\<exists>jobs'. snd (translateRoutes tr language s') = Inr jobs'"
    unfolding translateRoutes_routes(2)[where s = s' and tr = tr and language = language, OF r1 n1 ok1']
    by blast
  ultimately show ?thesis
    using r1 by simp
qed

text \<open>
  C2. A call of \<^verbatim>\<open>_translateRouteTree\<close> that does not throw writes, into every node
  of its level whose property is set, the translation of the same property of the
  original node at the same index; and translating the result again against the same
  originals, with the same lookups, gives the same tree and does not throw. So a second
  \<^verbatim>\<open>translateRoutes\<close> to the same language leaves the routes as the first one left
  them.
\<close>

theorem retranslation_from_original:
  "(thrown (translateRouteTree pfx lk pre index nodes originals) = None \<longrightarrow>
      live (translateRouteTree pfx lk pre index
            (live (translateRouteTree pfx lk pre index nodes originals)) originals) =
           live (translateRouteTree pfx lk pre index nodes originals)
      \<and> thrown (translateRouteTree pfx lk pre index
            (live (translateRouteTree pfx lk pre index nodes originals)) originals) = None
      \<and> (\<forall>i property. i < length nodes \<and> truthy (getProperty (nodes ! i) property) \<longrightarrow>
            (\<exists>os orig src. originals = Some os \<and> nth_opt os (index + i) = Some orig \<and>
               getProperty orig property = Some src \<and>
               getProperty (live (translateRouteTree pfx lk pre index nodes originals) ! i) property =
                 Some (translateRoute pfx lk src))))
   \<and> (translateRoutes tr language s = (s', Inr jobs) \<longrightarrow>
        routes (fst (translateRoutes tr language s')) = routes s'
        \<and> (\<exists>jobs'. snd (translateRoutes tr language s') = Inr jobs'))"
proof (intro conjI impI)
  assume ok: "thrown (translateRouteTree pfx lk pre index nodes originals) = None"
  from translateRouteTree_again[OF ok]
  show "live (translateRouteTree pfx lk pre index
            (live (translateRouteTree pfx lk pre index nodes originals)) originals) =
           live (translateRouteTree pfx lk pre index nodes originals)"
    and "thrown (translateRouteTree pfx lk pre index
            (live (translateRouteTree pfx lk pre index nodes originals)) originals) = None"
    by simp_all
  have "\<exists>os orig src. originals = Some os \<and> nth_opt os (index + i) = Some orig \<and>
             getProperty orig property = Some src \<and>
             getProperty (live (translateRouteTree pfx lk pre index nodes originals) ! i) property =
               Some (translateRoute pfx lk src)"
    if "i < length nodes" "truthy (getProperty (nodes ! i) property)" for i property
    using translateRouteTree_source[OF ok that(1), of property] that(2) by auto
  then show "\<forall>i property. i < length nodes \<and> truthy (getProperty (nodes ! i) property) \<longrightarrow>
            (\<exists>os orig src. originals = Some os \<and> nth_opt os (index + i) = Some orig \<and>
               getProperty orig property = Some src \<and>
               getProperty (live (translateRouteTree pfx lk pre index nodes originals) ! i) property =
                 Some (translateRoute pfx lk src))"
    by blast
next
  assume t: "translateRoutes tr language s = (s', Inr jobs)"
  from translateRoutes_again[OF t]
  show "routes (fst (translateRoutes tr language s')) = routes s'"
    and "\<exists>jobs'. snd (translateRoutes tr language s') = Inr jobs'"
    by simp_all
qed

theorem retranslation_from_original_witness:
  "thrown (translateRouteTree ''ROUTES.'' fr_lookup [1] 0 routes0 (Some routes0)) = None
   \<and> live (translateRouteTree ''ROUTES.'' fr_lookup [1] 0 routes0 (Some routes0)) =
       [Route (Some ''a-propos'') None None None,
        Route (Some ''user/:id'') None None (Some [Route (Some ''a-propos'') None None None])]
   \<and> live (translateRouteTree ''ROUTES.'' fr_lookup [1] 0
         [Route (Some ''a-propos'') None None None,
          Route (Some ''user/:id'') None None (Some [Route (Some ''a-propos'') None None None])]
         (Some routes0)) =
       [Route (Some ''a-propos'') None None None,
        Route (Some ''user/:id'') None None (Some [Route (Some ''a-propos'') None None None])]
   \<and> routes (fst (translateRoutes tr0 (Some ''fr'') s1)) = routes s1"
proof -
  have v: "translateRouteTree ''ROUTES.'' fr_lookup [1] 0 routes0 (Some routes0) =
      TreeResult
       [Route (Some ''a-propos'') None None None,
        Route (Some ''user/:id'') None None (Some [Route (Some ''a-propos'') None None None])]
       [([1, 0], Path), ([1, 1], Path), ([1, 1, 0], Path)]
       [([1, 0], Path), ([1, 1], Path)] None"
    by code_simp
  then have h: "thrown (translateRouteTree ''ROUTES.'' fr_lookup [1] 0 routes0 (Some routes0)) = None"
    by simp
  have i: "snd (init tr0 routes0 s0) =
      Inr ([([1, 0], Path), ([1, 1], Path), ([1, 1, 0], Path)], [([1, 0], Path), ([1, 1], Path)])"
    by code_simp
  have a: "routes s0 = None" "locales s0 \<noteq> []"
    by (simp_all add: s0_def)
  have sel: "or_else (getLocationLang s0 None)
      (or_else (or_else (get_cachedLang s0) (getBrowserLang s0)) (Some (locales s0 ! 0))) = Some ''fr''"
    by code_simp
  note u = init_first_unfold[OF a, of tr0 routes0, unfolded sel]
  have t: "translateRoutes tr0 (Some ''fr'')
      (s0\<lparr>originalRouteNames := Some routes0,
          translate_defaultLang :=
            or_else (or_else (get_cachedLang s0) (getBrowserLang s0)) (Some (locales s0 ! 0)),
          effects := effects s0 @ [SetDefaultLang
            (or_else (or_else (get_cachedLang s0) (getBrowserLang s0)) (Some (locales s0 ! 0)))],
          routes := Some [Route (Some [])
                 (or_else (or_else (get_cachedLang s0) (getBrowserLang s0)) (Some (locales s0 ! 0)))
                 (Some ''full'') None,
               Route None None None (Some routes0)]\<rparr>) =
      (s1, Inr ([([1, 0], Path), ([1, 1], Path), ([1, 1, 0], Path)], [([1, 0], Path), ([1, 1], Path)]))"
    unfolding u[symmetric] s1_def using i by (cases "init tr0 routes0 s0") simp
  from retranslation_from_original [of "''ROUTES.''" fr_lookup "[1]" 0 routes0 "Some routes0"
      tr0 "Some ''fr''" _ s1] h t
  show ?thesis
    unfolding v by simp
qed

lemma returnIfInLocales_Some:
  "returnIfInLocales s v = Some l \<longleftrightarrow> v = Some l \<and> l \<noteq> [] \<and> l \<in> set (locales s)"
  by (cases v) (auto simp: returnIfInLocales_def indexOf_minus1_iff)

lemma getLocationLang_member:
  "getLocationLang s u = Some l \<Longrightarrow> l \<in> set (locales s)"
  by (auto simp: getLocationLang_def Let_def indexOf_minus1_iff split: if_splits)

lemma getLocationLang_pathname:
  "(\<exists>l \<in> set (spec_urlLocales (locales s) (pathname s)). getLocationLang s None = Some l)
   \<or> (spec_urlLocales (locales s) (pathname s) = [] \<and> getLocationLang s None = None)"
proof -
  obtain a rest where segs: "split_on CHR ''/'' (pathname s) = a # rest"
    using split_on_not_Nil[of "CHR ''/''" "pathname s"]
    by (cases "split_on CHR ''/'' (pathname s)") auto
  show ?thesis
    by (cases rest)
       (auto simp: getLocationLang_def spec_urlLocales_def Let_def segs indexOf_minus1_iff)
qed

lemma get_cachedLang_Some:
  "get_cachedLang s = Some l \<Longrightarrow> l \<noteq> [] \<and> l \<in> set (locales s)"
  by (auto simp: get_cachedLang_def returnIfInLocales_Some split: if_splits)

lemma getBrowserLang_Some:
  "getBrowserLang s = Some l \<Longrightarrow> l \<noteq> [] \<and> l \<in> set (locales s)"
  by (auto simp: getBrowserLang_def returnIfInLocales_Some)

lemma defaultLanguage_cases:
  "or_else (or_else (get_cachedLang s) (getBrowserLang s)) (Some x) =
     Some (case get_cachedLang s of
             Some c \<Rightarrow> c
           | None \<Rightarrow> (case getBrowserLang s of Some b \<Rightarrow> b | None \<Rightarrow> x))"
proof (cases "get_cachedLang s")
  case None
  show ?thesis
  proof (cases "getBrowserLang s")
    case None
    with \<open>get_cachedLang s = None\<close> show ?thesis by (simp add: or_else_def)
  next
    case (Some b)
    with getBrowserLang_Some[OF Some] \<open>get_cachedLang s = None\<close> show ?thesis
      by (simp add: or_else_def)
  qed
next
  case (Some c)
  with get_cachedLang_Some[OF Some] show ?thesis by (simp add: or_else_def)
qed

lemma defaultLanguage_fallback:
  assumes "locales s \<noteq> []" "[] \<notin> set (locales s)"
  shows "or_else (or_else (get_cachedLang s) (getBrowserLang s)) (Some (locales s ! 0)) =
     Some (spec_fallbackLocale (if hasStorage s then storedLang s else None) (browserLang s)
             (locales s))"
proof -
  have hd: "hd (locales s) = locales s ! 0"
    using assms(1) by (simp add: hd_conv_nth)
  have c: "get_cachedLang s =
      (if (case (if hasStorage s then storedLang s else None) of
             None \<Rightarrow> False | Some c \<Rightarrow> c \<noteq> [] \<and> c \<in> set (locales s))
       then (if hasStorage s then storedLang s else None) else None)"
    by (cases "storedLang s")
       (simp_all add: get_cachedLang_def returnIfInLocales_def indexOf_minus1_iff)
  have b: "getBrowserLang s =
      (if (case browserLang s of None \<Rightarrow> False | Some b \<Rightarrow> b \<in> set (locales s))
       then browserLang s else None)"
    using assms(2)
    by (cases "browserLang s")
       (auto simp: getBrowserLang_def returnIfInLocales_def indexOf_minus1_iff)
  show ?thesis
    unfolding defaultLanguage_cases spec_fallbackLocale_def hd
    by (subst c, subst b) (auto split: option.splits)
qed

text \<open>
  C5, as the code has it: for a locale set without the empty string. On the first load
  with a locale set that is not empty, the active locale is a member of the set found
  in the first or the second component of \<^verbatim>\<open>location.pathname\<close> when there is one,
  whatever the cached and the client's locale are; otherwise the cached locale if it is
  not empty and a member, else the client's locale if it is a member, else the first
  element of the set.
\<close>

theorem initial_locale_precedence:
  assumes "routes s = None" "locales s \<noteq> []" "[] \<notin> set (locales s)"
  shows "(spec_urlLocales (locales s) (pathname s) \<noteq> [] \<longrightarrow>
            (\<exists>l \<in> set (spec_urlLocales (locales s) (pathname s)).
               currentLang (fst (init tr newRoutes s)) = Some l))
    \<and> (spec_urlLocales (locales s) (pathname s) = [] \<longrightarrow>
            currentLang (fst (init tr newRoutes s)) =
              Some (spec_fallbackLocale (if hasStorage s then storedLang s else None)
                      (browserLang s) (locales s)))"
proof -
  let ?dl = "or_else (or_else (get_cachedLang s) (getBrowserLang s)) (Some (locales s ! 0))"
  have cur: "currentLang (fst (init tr newRoutes s)) = or_else (getLocationLang s None) ?dl"
    by (rule init_first(1)[OF assms(1,2)])
  from getLocationLang_pathname[of s] show ?thesis
  proof
    assume "\<exists>l \<in> set (spec_urlLocales (locales s) (pathname s)). getLocationLang s None = Some l"
    then obtain l where l: "l \<in> set (spec_urlLocales (locales s) (pathname s))"
      and g: "getLocationLang s None = Some l" by blast
    from l have "l \<in> set (locales s)" by (simp add: spec_urlLocales_def)
    with assms(3) have "l \<noteq> []" by auto
    then have "currentLang (fst (init tr newRoutes s)) = Some l"
      unfolding cur g by (simp add: or_else_def)
    with l show ?thesis by auto
  next
    assume "spec_urlLocales (locales s) (pathname s) = [] \<and> getLocationLang s None = None"
    then show ?thesis
      unfolding cur defaultLanguage_fallback[OF assms(2,3)] by (simp add: or_else_def)
  qed
qed

theorem initial_locale_precedence_witness:
  "spec_urlLocales (locales s0) (pathname s0) = [''fr'']
   \<and> currentLang (fst (init tr0 routes0 s0)) = Some ''fr''
   \<and> spec_urlLocales (locales s_cached) (pathname s_cached) = []
   \<and> currentLang (fst (init tr0 routes0 s_cached)) = Some ''fr''"
proof -
  have a: "routes s0 = None" "locales s0 \<noteq> []" "[] \<notin> set (locales s0)"
    by (simp_all add: s0_def)
  have b: "routes s_cached = None" "locales s_cached \<noteq> []" "[] \<notin> set (locales s_cached)"
    by (simp_all add: s_cached_def s0_def)
  have u0: "spec_urlLocales (locales s0) (pathname s0) = [''fr'']"
    by (simp add: spec_urlLocales_def s0_def)
  have u1: "spec_urlLocales (locales s_cached) (pathname s_cached) = []"
    by (simp add: spec_urlLocales_def s_cached_def s0_def)
  have f: "spec_fallbackLocale (if hasStorage s_cached then storedLang s_cached else None)
             (browserLang s_cached) (locales s_cached) = ''fr''"
    by (simp add: spec_fallbackLocale_def s_cached_def s0_def)
  show ?thesis
    using initial_locale_precedence [OF a, of tr0 routes0]
      initial_locale_precedence [OF b, of tr0 routes0]
    unfolding u0 u1 f by simp
qed

text \<open>
  C5 as stated fails for a locale set with the empty string in it: for the path \<open>/x\<close>
  the first component is the empty string, a member of the set, and the locale
  resolved is \<open>en\<close>, the first element of the set.
\<close>

theorem url_locale_empty_counterexample:
  "spec_urlLocales (locales s_empty) (pathname s_empty) = [[]]
   \<and> currentLang (fst (init tr0 routes0 s_empty)) = Some ''en''"
proof -
  have a: "routes s_empty = None" "locales s_empty \<noteq> []"
    by (simp_all add: s_empty_def s0_def)
  show ?thesis
    unfolding init_first(1)[OF a]
    by (simp add: spec_urlLocales_def s_empty_def s0_def getLocationLang_def or_else_def
        get_cachedLang_def getBrowserLang_def returnIfInLocales_def indexOf_def)
qed

text \<open>
  C6, as the code has it. On the first load with a locale set that is not empty, the
  original routes are a deep copy of the routes handed in, equal to them, and the live
  array holds two nodes: at index 0 the node with the empty path, \<open>pathMatch\<close> \<open>full\<close>
  and \<open>redirectTo\<close> the default language given to the translate service (the cached
  locale if valid, else the browser's locale if valid, else the first element of the
  locale set); at index 1 the container with the selected language as its path, whose
  children are the routes handed in, translated in place. The call does not throw.
\<close>

theorem first_load_rewrites_routes:
  assumes "routes s = None" "locales s \<noteq> []"
  shows "originalRouteNames (fst (init tr newRoutes s)) = Some (deepCopy newRoutes)
    \<and> deepCopy newRoutes = newRoutes
    \<and> translate_defaultLang (fst (init tr newRoutes s)) =
         Some (case get_cachedLang s of
                 Some c \<Rightarrow> c
               | None \<Rightarrow> (case getBrowserLang s of Some b \<Rightarrow> b | None \<Rightarrow> locales s ! 0))
    \<and> routes (fst (init tr newRoutes s)) =
         Some [Route (Some []) (translate_defaultLang (fst (init tr newRoutes s))) (Some ''full'') None,
               Route (currentLang (fst (init tr newRoutes s))) None None
                 (Some (live (translateRouteTree (prefix s)
                    (tr (currentLang (fst (init tr newRoutes s)))
                        (translate_defaultLang (fst (init tr newRoutes s))))
                    [1] 0 newRoutes (Some newRoutes))))]
    \<and> (\<exists>jobs. snd (init tr newRoutes s) = Inr jobs)"
  using init_first(2,3)[OF assms, of tr newRoutes] init_first_routes[OF assms, of tr newRoutes]
  by (simp only: deepCopy_id defaultLanguage_cases simp_thms)

theorem first_load_rewrites_routes_witness:
  "routes (fst (init tr0 routes0 s0)) =
     Some [Route (Some []) (Some ''en'') (Some ''full'') None,
           Route (Some ''fr'') None None
             (Some [Route (Some ''a-propos'') None None None,
                    Route (Some ''user/:id'') None None
                      (Some [Route (Some ''a-propos'') None None None])])]
   \<and> originalRouteNames (fst (init tr0 routes0 s0)) = Some routes0"
proof -
  have a: "routes s0 = None" "locales s0 \<noteq> []"
    by (simp_all add: s0_def)
  have cur: "currentLang (fst (init tr0 routes0 s0)) = Some ''fr''"
    unfolding init_first(1)[OF a]
    by (simp add: s0_def getLocationLang_def or_else_def indexOf_def)
  have c: "get_cachedLang s0 = None"
    by (simp add: get_cachedLang_def returnIfInLocales_def s0_def)
  have b: "getBrowserLang s0 = None"
    by (simp add: getBrowserLang_def returnIfInLocales_def s0_def indexOf_def)
  have l: "locales s0 ! 0 = ''en''" "prefix s0 = ''ROUTES.''"
    by (simp_all add: s0_def)
  have t: "tr0 (Some ''fr'') (Some ''en'') = fr_lookup"
    by (rule ext) (simp add: tr0_def)
  have v: "live (translateRouteTree ''ROUTES.'' fr_lookup [1] 0 routes0 (Some routes0)) =
       [Route (Some ''a-propos'') None None None,
        Route (Some ''user/:id'') None None (Some [Route (Some ''a-propos'') None None None])]"
    by (simp add: routes0_def translateProperties_def translateProperty_def
        getTranslatePromise_def nth_opt_def translateRoute_join translatedSegments_map
        translateSegment_def fr_lookup_def)
  note th = first_load_rewrites_routes [OF a, of tr0 routes0, unfolded cur c b option.case l]
  from th have d: "translate_defaultLang (fst (init tr0 routes0 s0)) = Some ''en''"
    by blast
  from th [unfolded d t v] show ?thesis
    by (simp add: deepCopy_id)
qed

text \<open>
  C6 as stated fails: with the cached locale \<open>fr\<close> and the locale set \<open>en\<close>, \<open>fr\<close>
  the node at index 0 redirects to \<open>fr\<close>, not to the first element of the set.
\<close>

theorem redirect_to_cached_counterexample:
  "\<not> redirectTo (the (routes (fst (init tr0 routes0 s_cached))) ! 0) =
       Some (hd (locales s_cached))"
proof -
  have a: "routes s_cached = None" "locales s_cached \<noteq> []"
    by (simp_all add: s_cached_def s0_def)
  have c: "get_cachedLang s_cached = Some ''fr''"
    by (simp add: get_cachedLang_def returnIfInLocales_def s_cached_def s0_def indexOf_def)
  have d: "translate_defaultLang (fst (init tr0 routes0 s_cached)) = Some ''fr''"
    unfolding init_first(2)[OF a] defaultLanguage_cases by (simp add: c)
  show ?thesis
    unfolding init_first_routes(1)[OF a] d by (simp add: s_cached_def s0_def)
qed

lemma init_locales: "locales (fst (init tr newRoutes s)) = locales s"
  by (auto simp: init_def Let_def translateRoutes_fields split: option.splits route.splits)

lemma selectedLanguage_member:
  assumes "locales s \<noteq> []"
  shows "\<exists>l. or_else (getLocationLang s None)
             (or_else (or_else (get_cachedLang s) (getBrowserLang s)) (Some (locales s ! 0))) = Some l
           \<and> l \<in> set (locales s)"
proof (cases "truthy (getLocationLang s None)")
  case True
  then obtain l where "getLocationLang s None = Some l"
    by (cases "getLocationLang s None") auto
  with True getLocationLang_member[OF this] show ?thesis
    by (simp add: or_else_def)
next
  case False
  have "locales s ! 0 \<in> set (locales s)"
    using assms by simp
  with False show ?thesis
    unfolding defaultLanguage_cases
    by (auto simp: or_else_def dest: get_cachedLang_Some getBrowserLang_Some split: option.splits)
qed

lemma activeLocaleOk_cong:
  "currentLang s' = currentLang s \<Longrightarrow> locales s' = locales s \<Longrightarrow>
   activeLocaleOk s' = activeLocaleOk s"
  by (simp add: activeLocaleOk_def cong: option.case_cong)

lemma init_activeLocaleOk:
  assumes "activeLocaleOk s"
  shows "activeLocaleOk (fst (init tr newRoutes s))"
proof (cases "routes s")
  case None
  show ?thesis
  proof (cases "locales s = []")
    case True
    have "init tr newRoutes s =
        (s\<lparr>routes := Some newRoutes, originalRouteNames := Some (deepCopy newRoutes)\<rparr>,
         Inr ([], []))"
      using None True by (simp add: init_def Let_def)
    then have "activeLocaleOk (fst (init tr newRoutes s)) = activeLocaleOk s"
      by (intro activeLocaleOk_cong) simp_all
    with assms show ?thesis by simp
  next
    case False
    from selectedLanguage_member[OF False] obtain l where
      "currentLang (fst (init tr newRoutes s)) = Some l" "l \<in> set (locales s)"
      unfolding init_first(1)[OF None False, of tr newRoutes, symmetric] by blast
    then show ?thesis
      by (simp add: activeLocaleOk_def init_first(4)[OF None False])
  qed
next
  case (Some rs)
  have "currentLang (fst (init tr newRoutes s)) = currentLang s"
    using Some
    by (simp add: init_def Let_def translateRoutes_fields split: option.splits route.splits)
  then have "activeLocaleOk (fst (init tr newRoutes s)) = activeLocaleOk s"
    by (intro activeLocaleOk_cong init_locales)
  with assms show ?thesis by simp
qed

lemma routeChanged_activeLocaleOk:
  assumes "activeLocaleOk s"
  shows "activeLocaleOk (fst (routeChanged tr event s))"
proof (cases "isNavigationStart event \<and> truthy (getLocationLang s (event_url event)) \<and>
    getLocationLang s (event_url event) \<noteq> currentLang s")
  case True
  then obtain l where l: "getLocationLang s (event_url event) = Some l"
    by (cases "getLocationLang s (event_url event)") auto
  have "currentLang (fst (routeChanged tr event s)) = Some l"
    "locales (fst (routeChanged tr event s)) = locales s"
    using True l translateRoutes_fields(1,2)[of tr "Some l" s]
    by (auto simp: routeChanged_def Let_def split: prod.splits sum.splits)
  with getLocationLang_member[OF l] show ?thesis
    by (simp add: activeLocaleOk_def)
next
  case False
  with assms show ?thesis
    by (auto simp: routeChanged_def Let_def)
qed

lemma changeLanguage_fields:
  "locales (fst (changeLanguage tr snap lang s)) = locales s"
  "Some lang \<noteq> currentLang s \<Longrightarrow> currentLang (fst (changeLanguage tr snap lang s)) = Some lang"
  "Some lang = currentLang s \<Longrightarrow> changeLanguage tr snap lang s = (s, None)"
  using translateRoutes_fields(1,2)[of tr "Some lang" s]
  by (auto simp: changeLanguage_def split: prod.splits sum.splits)

text \<open>
  C10, as the code has it. The first load and later loads (\<^verbatim>\<open>init\<close>) and the handler
  of route changes keep the invariant: the active locale is unset or a member of the
  locale set. \<^verbatim>\<open>translateRoutes\<close> and \<^verbatim>\<open>changeLanguage\<close> set the active locale to the
  language they are given, whatever it is, so they keep the invariant when that
  language is a member of the locale set.
\<close>

theorem active_locale_invariant:
  assumes "activeLocaleOk s"
  shows "activeLocaleOk (fst (init tr newRoutes s))
    \<and> activeLocaleOk (fst (routeChanged tr event s))
    \<and> (lang \<in> set (locales s) \<longrightarrow>
          activeLocaleOk (fst (translateRoutes tr (Some lang) s)) \<and>
          activeLocaleOk (fst (changeLanguage tr snap lang s)))
    \<and> currentLang (fst (translateRoutes tr (Some lang) s)) = Some lang
    \<and> (Some lang \<noteq> currentLang s \<longrightarrow>
          currentLang (fst (changeLanguage tr snap lang s)) = Some lang)"
proof -
  have "activeLocaleOk (fst (changeLanguage tr snap lang s))" if "lang \<in> set (locales s)"
  proof (cases "Some lang = currentLang s")
    case True
    with assms show ?thesis by (simp add: changeLanguage_fields(3))
  next
    case False
    with that show ?thesis
      by (simp add: activeLocaleOk_def changeLanguage_fields)
  qed
  then show ?thesis
    using init_activeLocaleOk[OF assms] routeChanged_activeLocaleOk[OF assms]
    by (simp add: activeLocaleOk_def translateRoutes_fields changeLanguage_fields)
qed

theorem active_locale_invariant_witness:
  "activeLocaleOk s0 \<and> activeLocaleOk (fst (init tr0 routes0 s0))
   \<and> activeLocaleOk (fst (changeLanguage tr0 snap0 ''fr'' s0))
   \<and> currentLang (fst (changeLanguage tr0 snap0 ''fr'' s0)) = Some ''fr''"
proof -
  have a: "activeLocaleOk s0"
    by (simp add: activeLocaleOk_def s0_def)
  have m: "''fr'' \<in> set (locales s0)" "Some ''fr'' \<noteq> currentLang s0"
    by (simp_all add: s0_def)
  from active_locale_invariant [OF a, of tr0 routes0 _ "''fr''" snap0] a m
  show ?thesis by blast
qed

text \<open>
  C10 as stated fails: after the first load the active locale is \<open>fr\<close>, a member of the
  locale set \<open>en\<close>, \<open>fr\<close>; \<^verbatim>\<open>changeLanguage('xx')\<close> makes \<open>xx\<close> the active locale.
\<close>

theorem change_to_unknown_locale_counterexample:
  "activeLocaleOk s1 \<and> \<not> activeLocaleOk (fst (changeLanguage tr0 snap0 ''xx'' s1))"
  unfolding s1_def by code_simp

lemma translateRoutes_effects:
  "effects (fst (translateRoutes tr language s)) =
     effects s @ [TranslateUse language, SetCurrentLang language] @
       (if hasStorage s
        then [StorageSetItem (case language of None \<Rightarrow> ''undefined'' | Some l \<Rightarrow> l)] else [])"
  "storedLang (fst (translateRoutes tr language s)) =
     (if hasStorage s then Some (case language of None \<Rightarrow> ''undefined'' | Some l \<Rightarrow> l)
      else storedLang s)"
  by (simp_all add: translateRoutes_def Let_def set_cachedLang_def
      split: option.splits route.splits)

text \<open>
  C8, as the code has it. A locale change to a language other than the active one
  first sets the language of the translate service, then the active locale, then
  stores the cached preference (when there is a storage), all in \<^verbatim>\<open>translateRoutes\<close>:
  these are the first effects of the change, and whatever else it issues comes after
  them.
\<close>

theorem locale_change_order:
  assumes "Some lang \<noteq> currentLang s"
  shows "\<exists>rest. effects (fst (changeLanguage tr snap lang s)) =
           effects s @ [TranslateUse (Some lang), SetCurrentLang (Some lang)] @
             (if hasStorage s then [StorageSetItem lang] else []) @ rest
         \<and> currentLang (fst (changeLanguage tr snap lang s)) = Some lang
         \<and> storedLang (fst (changeLanguage tr snap lang s)) =
             (if hasStorage s then Some lang else storedLang s)"
proof -
  have "fst (changeLanguage tr snap lang s) = fst (translateRoutes tr (Some lang) s)"
    using assms by (auto simp: changeLanguage_def split: prod.splits sum.splits)
  then show ?thesis
    using translateRoutes_effects[of tr "Some lang" s]
      translateRoutes_fields(1)[of tr "Some lang" s]
    by simp
qed

theorem locale_change_order_witness:
  "Some ''en'' \<noteq> currentLang s1
   \<and> effects (fst (changeLanguage tr0 snap0 ''en'' s1)) =
       effects s1 @ [TranslateUse (Some ''en''), SetCurrentLang (Some ''en''),
         StorageSetItem ''en'']
   \<and> currentLang (fst (changeLanguage tr0 snap0 ''en'' s1)) = Some ''en''
   \<and> storedLang (fst (changeLanguage tr0 snap0 ''en'' s1)) = Some ''en''"
proof -
  have a: "Some ''en'' \<noteq> currentLang s1"
    unfolding s1_def by code_simp
  have h: "hasStorage s1"
    unfolding s1_def by code_simp
  have e: "effects (fst (changeLanguage tr0 snap0 ''en'' s1)) =
       effects s1 @ [TranslateUse (Some ''en''), SetCurrentLang (Some ''en''),
         StorageSetItem ''en'']"
    unfolding s1_def by code_simp
  from locale_change_order [OF a, of tr0 snap0] a h e show ?thesis
    by auto
qed

text \<open>
  C8 as stated fails: \<^verbatim>\<open>changeLanguage('en')\<close> after the first load updates the active
  locale and writes the cached preference, and no navigation has been issued before
  either of them.
\<close>

theorem locale_updated_without_navigation_counterexample:
  "Some ''en'' \<noteq> currentLang s1
   \<and> currentLang (fst (changeLanguage tr0 snap0 ''en'' s1)) = Some ''en''
   \<and> storedLang (fst (changeLanguage tr0 snap0 ''en'' s1)) = Some ''en''
   \<and> SetCurrentLang (Some ''en'') \<in>
       set (drop (length (effects s1)) (effects (fst (changeLanguage tr0 snap0 ''en'' s1))))
   \<and> StorageSetItem ''en'' \<in>
       set (drop (length (effects s1)) (effects (fst (changeLanguage tr0 snap0 ''en'' s1))))
   \<and> \<not> navigated_before (SetCurrentLang (Some ''en''))
       (drop (length (effects s1)) (effects (fst (changeLanguage tr0 snap0 ''en'' s1))))
   \<and> \<not> navigated_before (StorageSetItem ''en'')
       (drop (length (effects s1)) (effects (fst (changeLanguage tr0 snap0 ''en'' s1))))"
  unfolding s1_def by code_simp

section \<open>Properties of the service\<close>

lemma indexOf_zero_iff: "indexOf xs x = 0 \<longleftrightarrow> xs \<noteq> [] \<and> xs ! 0 = x"
proof (cases xs)
  case Nil
  then show ?thesis by (simp add: indexOf_def)
next
  case (Cons y ys)
  show ?thesis
  proof (cases "y = x")
    case True
    with Cons show ?thesis by (simp add: indexOf_def)
  next
    case False
    have "indexOf_from 1 ys x \<noteq> 0"
      using indexOf_from_ge[of x ys 1] indexOf_from_notin[of x ys 1]
      by (cases "x \<in> set ys") auto
    with Cons False show ?thesis by (simp add: indexOf_def)
  qed
qed

lemma indexOf_one_iff:
  "indexOf xs x = 1 \<longleftrightarrow> 1 < length xs \<and> xs ! 0 \<noteq> x \<and> xs ! 1 = x"
proof (cases xs)
  case Nil
  then show ?thesis by (simp add: indexOf_def)
next
  case (Cons y ys)
  note xs = Cons
  show ?thesis
  proof (cases "y = x")
    case True
    with xs show ?thesis by (simp add: indexOf_def)
  next
    case False
    show ?thesis
    proof (cases ys)
      case Nil
      with xs False show ?thesis by (simp add: indexOf_def)
    next
      case (Cons z zs)
      show ?thesis
      proof (cases "z = x")
        case True
        with xs Cons False show ?thesis by (simp add: indexOf_def)
      next
        case neq: False
        have "indexOf_from 2 zs x \<noteq> 1"
          using indexOf_from_ge[of x zs 2] indexOf_from_notin[of x zs 2]
          by (cases "x \<in> set zs") auto
        with xs Cons False neq show ?thesis by (simp add: indexOf_def)
      qed
    qed
  qed
qed

lemma join_split: "join_with [c] (split_on c u) = u"
proof (induction u)
  case Nil
  show ?case by simp
next
  case (Cons x xs)
  obtain w ws where s: "split_on c xs = w # ws"
    using split_on_not_Nil[of c xs] by (cases "split_on c xs") auto
  with Cons show ?case by (cases ws) auto
qed

lemma changeLanguage_url_unchanged:
  assumes "if lang = defaultLang
           then \<not> (indexOf (split_on CHR ''/'' u) lang = 0 \<or>
                   (indexOf (split_on CHR ''/'' u) lang = 1 \<and> split_on CHR ''/'' u ! 0 = []))
           else lang \<in> set (split_on CHR ''/'' u)"
  shows "changeLanguage_url False lang defaultLang u = u"
proof -
  have j: "join_with ''/'' (split_on CHR ''/'' u) = u"
    by (rule join_split)
  from assms show ?thesis
    by (auto simp: changeLanguage_url_def Let_def j indexOf_minus1_iff split: if_splits)
qed

text \<open>
  C7. With the always-prefix setting disabled, \<^verbatim>\<open>changeLanguage\<close> treats the url it
  has rebuilt as follows, before it navigates. When the new locale is the default locale and the segment at
  position 0 is that locale, or the segment at position 0 is empty and the segment at
  position 1 is that locale, the segment is removed. When the new locale is not the
  default locale and no segment of the url is that locale, the locale is inserted after
  the leading empty segment if there is one, and at the front otherwise.
\<close>

theorem prefix_policy:
  "(lang = defaultLang \<and> split_on CHR ''/'' u ! 0 = lang \<longrightarrow>
      changeLanguage_url False lang defaultLang u =
        join_with ''/'' (drop 1 (split_on CHR ''/'' u)))
   \<and> (lang = defaultLang \<and> split_on CHR ''/'' u ! 0 = [] \<and>
       1 < length (split_on CHR ''/'' u) \<and> split_on CHR ''/'' u ! 1 = lang \<longrightarrow>
      changeLanguage_url False lang defaultLang u =
        join_with ''/'' (take 1 (split_on CHR ''/'' u) @ drop 2 (split_on CHR ''/'' u)))
   \<and> (lang \<noteq> defaultLang \<and> lang \<notin> set (split_on CHR ''/'' u) \<longrightarrow>
      changeLanguage_url False lang defaultLang u =
        join_with ''/''
          (if split_on CHR ''/'' u ! 0 = []
           then take 1 (split_on CHR ''/'' u) @ [lang] @ drop 1 (split_on CHR ''/'' u)
           else lang # split_on CHR ''/'' u))"
proof -
  let ?segs = "split_on CHR ''/'' u"
  have ne: "?segs \<noteq> []" by (rule split_on_not_Nil)
  have a: "changeLanguage_url False lang defaultLang u = join_with ''/'' (drop 1 ?segs)"
    if "lang = defaultLang" "?segs ! 0 = lang"
  proof -
    have "indexOf ?segs lang = 0" using that ne by (simp add: indexOf_zero_iff)
    with that show ?thesis
      by (simp add: changeLanguage_url_def Let_def slice_def slice_from_def)
  qed
  have b: "changeLanguage_url False lang defaultLang u =
        join_with ''/'' (take 1 ?segs @ drop 2 ?segs)"
    if "lang = defaultLang" "?segs ! 0 = []" "1 < length ?segs" "?segs ! 1 = lang"
  proof (cases "lang = []")
    case True
    with that have z: "?segs ! 0 = lang" by simp
    from that(3) obtain x y zs where s: "?segs = x # y # zs"
      by (cases ?segs; cases "tl ?segs") auto
    with that True have "drop 1 ?segs = take 1 ?segs @ drop 2 ?segs" by simp
    with a[OF that(1) z] show ?thesis by simp
  next
    case False
    with that have "indexOf ?segs lang = 1" by (simp add: indexOf_one_iff)
    with that show ?thesis
      by (simp add: changeLanguage_url_def Let_def slice_def slice_from_def)
  qed
  have c: "changeLanguage_url False lang defaultLang u =
        join_with ''/'' (if ?segs ! 0 = [] then take 1 ?segs @ [lang] @ drop 1 ?segs
           else lang # ?segs)"
    if "lang \<noteq> defaultLang" "lang \<notin> set ?segs"
  proof -
    have "indexOf ?segs lang = - 1" using that by (simp add: indexOf_minus1_iff)
    with that show ?thesis
      by (simp add: changeLanguage_url_def Let_def slice_def slice_from_def)
  qed
  from a b c show ?thesis by blast
qed

theorem prefix_policy_witness:
  "changeLanguage_url False ''en'' ''en'' ''/en/about'' = ''/about''
   \<and> changeLanguage_url False ''en'' ''en'' ''en/about'' = ''about''
   \<and> changeLanguage_url False ''fr'' ''en'' ''/about'' = ''/fr/about''
   \<and> changeLanguage_url False ''fr'' ''en'' ''about'' = ''fr/about''"
proof -
  have 1: "changeLanguage_url False ''en'' ''en'' ''/en/about'' = ''/about''"
    using prefix_policy [of "''en''" "''en''" "''/en/about''"] by simp
  have 2: "changeLanguage_url False ''en'' ''en'' ''en/about'' = ''about''"
    using prefix_policy [of "''en''" "''en''" "''en/about''"] by simp
  have 3: "changeLanguage_url False ''fr'' ''en'' ''/about'' = ''/fr/about''"
    using prefix_policy [of "''fr''" "''en''" "''/about''"] by simp
  have 4: "changeLanguage_url False ''fr'' ''en'' ''about'' = ''fr/about''"
    using prefix_policy [of "''fr''" "''en''" "''about''"] by simp
  from 1 2 3 4 show ?thesis by blast
qed

end
